theory Spec2Isabelle
  imports Main
begin

section \<open>Data model\<close>

text \<open>
  The graph view model of \<^verbatim>\<open>graph.tsx\<close>. Identifiers are the strings the remote
  store assigns. A node payload is a JavaScript object, modelled as a finite map from
  keys to values; object spread \<^verbatim>\<open>{...a, ...b}\<close> is map override \<open>a ++ b\<close>. A key
  bound to \<open>JUndefined\<close> is what \<^verbatim>\<open>{childId: undefined}\<close> leaves in the object.
\<close>

type_synonym ident = string

datatype jsval =
    JUndefined
  | JNull
  | JBool bool
  | JNum int
  | JStr string
  | JArr "jsval list"
  | JObj "(string \<times> jsval) list"

type_synonym payload = "string \<rightharpoonup> jsval"

type_synonym XYPosition = "int \<times> int"

text \<open>JavaScript truthiness, as used by \<^verbatim>\<open>||\<close> and \<^verbatim>\<open>&&\<close> in the source.\<close>

fun truthy :: "jsval \<Rightarrow> bool" where
  "truthy JUndefined = False"
| "truthy JNull = False"
| "truthy (JBool b) = b"
| "truthy (JNum n) = (n \<noteq> 0)"
| "truthy (JStr s) = (s \<noteq> [])"
| "truthy (JArr _) = True"
| "truthy (JObj _) = True"

text \<open>Property read \<^verbatim>\<open>obj.key\<close>: a missing key reads as \<^verbatim>\<open>undefined\<close>.\<close>

definition js_get :: "payload \<Rightarrow> string \<Rightarrow> jsval" where
  "js_get obj k = (case obj k of None \<Rightarrow> JUndefined | Some v \<Rightarrow> v)"

text \<open>A field is absent when the key is missing or holds \<^verbatim>\<open>undefined\<close>.\<close>

definition absent :: "payload \<Rightarrow> string \<Rightarrow> bool" where
  "absent obj k = (js_get obj k = JUndefined)"

text \<open>An optional handle string is truthy when it is present and not empty.\<close>

definition truthy_handle :: "string option \<Rightarrow> bool" where
  "truthy_handle h = (case h of None \<Rightarrow> False | Some s \<Rightarrow> s \<noteq> [])"

text \<open>\<^verbatim>\<open>h || undefined\<close> on an optional handle string.\<close>

definition or_undefined :: "string option \<Rightarrow> string option" where
  "or_undefined h = (if truthy_handle h then h else None)"

text \<open>The renderer's \<^verbatim>\<open>Node\<close>: id, position, type and payload.\<close>

record node =
  node_id :: ident
  position :: XYPosition
  node_type :: jsval
  node_data :: payload

text \<open>The renderer's \<^verbatim>\<open>Edge\<close>.\<close>

record edge =
  edge_id :: ident
  source :: ident
  target :: ident
  sourceHandle :: "string option"

text \<open>The \<^verbatim>\<open>params\<close> of a proposed connection.\<close>

record connection =
  params_source :: ident
  params_target :: ident
  params_sourceHandle :: "string option"

text \<open>Rows of the remote relations \<^verbatim>\<open>nodes\<close> and \<^verbatim>\<open>edges\<close>, keyed by their id.\<close>

record node_row =
  graph_id :: ident
  label :: string
  position_x :: int
  position_y :: int
  data :: "payload option"

record edge_row =
  source_node_id :: ident
  target_node_id :: ident

text \<open>
  Change events of the renderer. Only removal and position changes are read by the
  source; every other change kind (selection, dimensions) is \<open>NodeOther\<close> or
  \<open>EdgeOther\<close> and touches none of the modelled fields.
\<close>

datatype node_change =
    NodeRemove ident
  | NodePosition ident "XYPosition option"
  | NodeOther ident

datatype edge_change =
    EdgeRemove ident
  | EdgeOther ident

text \<open>
  The state of one mounted \<^verbatim>\<open>Graph\<close> component together with its environment:
  the React state (\<open>nodes\<close>, \<open>edges\<close>, \<open>selectedNode\<close>), the debounce timer
  reference (the due time of the pending timeout and the arguments its callback captured),
  the clock in milliseconds, the two remote relations, the outcomes of the remote requests
  still to come (\<open>None\<close> is an error; \<open>Some i\<close> is success, \<open>i\<close> being the id the
  store assigns when the request is an insert), and the list of batches handed to
  \<^verbatim>\<open>updateGraphData\<close>, each announced by \<^verbatim>\<open>onUpdateStart\<close>.
\<close>

record state =
  graphId :: ident
  nodes :: "node list"
  edges :: "edge list"
  selectedNode :: "node option"
  positionUpdateTimeoutRef :: "(nat \<times> node list \<times> edge list) option"
  now :: nat
  db_nodes :: "ident \<rightharpoonup> node_row"
  db_edges :: "ident \<rightharpoonup> edge_row"
  responses :: "ident option list"
  batches :: "node list list"

section \<open>The remote store\<close>

text \<open>
  Modelled from the spec: the datastore client is an external collaborator; section 6
  gives it select-with-filter, insert-returning-row, update-by-id and delete-by-id over
  the relations \<^verbatim>\<open>nodes\<close> and \<^verbatim>\<open>edges\<close>. Every request is attempted once and
  either fails (the \<^verbatim>\<open>error\<close> field of the reply is set) or takes effect. The client
  reports failures in the reply and does not throw. \<open>respond\<close> takes the outcome of
  the next request; when none is left the request fails.
\<close>

definition respond :: "state \<Rightarrow> ident option \<times> state" where
  "respond st =
     ((case responses st of [] \<Rightarrow> None | r # _ \<Rightarrow> r),
      st\<lparr>responses := tl (responses st)\<rparr>)"

text \<open>Modelled from the spec: select of one node row by id (\<^verbatim>\<open>.single()\<close> fails without a row).\<close>

definition select_node :: "ident \<Rightarrow> state \<Rightarrow> node_row option \<times> state" where
  "select_node nodeId st =
     (case respond st of
        (None, st') \<Rightarrow> (None, st')
      | (Some _, st') \<Rightarrow> (db_nodes st' nodeId, st'))"

text \<open>Modelled from the spec: update-by-id of a node's \<^verbatim>\<open>data\<close> column.\<close>

definition update_node_data :: "ident \<Rightarrow> payload \<Rightarrow> state \<Rightarrow> bool \<times> state" where
  "update_node_data nodeId d st =
     (case respond st of
        (None, st') \<Rightarrow> (False, st')
      | (Some _, st') \<Rightarrow>
          (True,
           case db_nodes st' nodeId of
             None \<Rightarrow> st'
           | Some row \<Rightarrow> st'\<lparr>db_nodes := (db_nodes st')(nodeId \<mapsto> row\<lparr>data := Some d\<rparr>)\<rparr>))"

text \<open>Modelled from the spec: update-by-id of a node's position columns.\<close>

definition update_node_position :: "ident \<Rightarrow> XYPosition \<Rightarrow> state \<Rightarrow> bool \<times> state" where
  "update_node_position nodeId p st =
     (case respond st of
        (None, st') \<Rightarrow> (False, st')
      | (Some _, st') \<Rightarrow>
          (True,
           case db_nodes st' nodeId of
             None \<Rightarrow> st'
           | Some row \<Rightarrow>
               st'\<lparr>db_nodes :=
                     (db_nodes st')(nodeId \<mapsto> row\<lparr>position_x := fst p, position_y := snd p\<rparr>)\<rparr>))"

text \<open>Modelled from the spec: insert-returning-row into \<^verbatim>\<open>nodes\<close>; the store assigns the id.\<close>

definition insert_node :: "node_row \<Rightarrow> state \<Rightarrow> ident option \<times> state" where
  "insert_node row st =
     (case respond st of
        (None, st') \<Rightarrow> (None, st')
      | (Some i, st') \<Rightarrow> (Some i, st'\<lparr>db_nodes := (db_nodes st')(i \<mapsto> row)\<rparr>))"

text \<open>Modelled from the spec: delete-by-id from \<^verbatim>\<open>nodes\<close>.\<close>

definition delete_node :: "ident \<Rightarrow> state \<Rightarrow> bool \<times> state" where
  "delete_node nodeId st =
     (case respond st of
        (None, st') \<Rightarrow> (False, st')
      | (Some _, st') \<Rightarrow> (True, st'\<lparr>db_nodes := (db_nodes st')(nodeId := None)\<rparr>))"

text \<open>Modelled from the spec: insert-returning-row into \<^verbatim>\<open>edges\<close>; the store assigns the id.\<close>

definition insert_edge :: "edge_row \<Rightarrow> state \<Rightarrow> ident option \<times> state" where
  "insert_edge row st =
     (case respond st of
        (None, st') \<Rightarrow> (None, st')
      | (Some i, st') \<Rightarrow> (Some i, st'\<lparr>db_edges := (db_edges st')(i \<mapsto> row)\<rparr>))"

text \<open>Modelled from the spec: delete-by-id from \<^verbatim>\<open>edges\<close>.\<close>

definition delete_edge :: "ident \<Rightarrow> state \<Rightarrow> bool \<times> state" where
  "delete_edge edgeId st =
     (case respond st of
        (None, st') \<Rightarrow> (False, st')
      | (Some _, st') \<Rightarrow> (True, st'\<lparr>db_edges := (db_edges st')(edgeId := None)\<rparr>))"

section \<open>The callbacks of the graph component\<close>

text \<open>
  A callback created by \<^verbatim>\<open>useCallback\<close> reads the \<open>nodes\<close>, \<open>edges\<close> and
  \<open>selectedNode\<close> of the render that created it. Each such callback therefore takes
  that render as its first argument \<open>r\<close> and the current state as its last; a state setter
  called with a value overwrites the field, one called with a function updates the current
  field. A callback dispatched on a freshly rendered state \<open>st\<close> runs with \<open>r = st\<close>.
\<close>

text \<open>\<^verbatim>\<open>updateNodeData\<close>: merge into the local payload, then fetch, merge and store remotely.\<close>

definition updateNodeData :: "ident \<Rightarrow> payload \<Rightarrow> state \<Rightarrow> bool \<times> state" where
  "updateNodeData nodeId newData st =
     (let st1 = st\<lparr>nodes :=
                     map (\<lambda>n. if node_id n = nodeId
                               then n\<lparr>node_data := node_data n ++ newData\<rparr>
                               else n)
                         (nodes st)\<rparr>
      in case select_node nodeId st1 of
           (None, st2) \<Rightarrow> (False, st2)
         | (Some currentNode, st2) \<Rightarrow>
             (let mergedData =
                    (case data currentNode of None \<Rightarrow> Map.empty | Some d \<Rightarrow> d) ++ newData
              in update_node_data nodeId mergedData st2))"

text \<open>\<^verbatim>\<open>createEdge\<close>: insert the edge row; the handle is kept on the object only when truthy.\<close>

definition createEdge ::
  "ident \<Rightarrow> ident \<Rightarrow> string option \<Rightarrow> state \<Rightarrow> edge option \<times> state" where
  "createEdge sourceId targetId h st =
     (case insert_edge \<lparr>source_node_id = sourceId, target_node_id = targetId\<rparr> st of
        (None, st') \<Rightarrow> (None, st')
      | (Some i, st') \<Rightarrow>
          (Some \<lparr>edge_id = i, source = sourceId, target = targetId,
                 sourceHandle = (if truthy_handle h then h else None)\<rparr>,
           st'))"

text \<open>\<^verbatim>\<open>deleteEdge\<close>.\<close>

definition deleteEdge :: "ident \<Rightarrow> state \<Rightarrow> bool \<times> state" where
  "deleteEdge edgeId st = delete_edge edgeId st"

text \<open>
  \<^verbatim>\<open>updateNodeRelationships\<close>. Every caller passes nodes it has already found, so
  the source's null check never fires; of the target only its id is read, which is what
  the model passes.
\<close>

definition updateNodeRelationships ::
  "node \<Rightarrow> ident \<Rightarrow> string option \<Rightarrow> bool \<Rightarrow> state \<Rightarrow> state" where
  "updateNodeRelationships sourceNode targetId h isRemove st =
     (let nodeType = node_type sourceNode;
          v = (if isRemove then JUndefined else JStr targetId)
      in if nodeType = JStr ''analysis'' then
           snd (updateNodeData (node_id sourceNode) [''childId'' \<mapsto> v] st)
         else if nodeType = JStr ''conditional'' then
           (if h = Some ''true'' then
              snd (updateNodeData (node_id sourceNode) [''trueChildId'' \<mapsto> v] st)
            else if h = Some ''false'' then
              snd (updateNodeData (node_id sourceNode) [''falseChildId'' \<mapsto> v] st)
            else st)
         else st)"

text \<open>
  The node part of \<^verbatim>\<open>fetchGraph\<close>: the renderer-facing node built from a fetched
  row (the body of the \<^verbatim>\<open>nodesData.map\<close> callback). The \<^verbatim>\<open>onPromptChange\<close>
  closure stored in a prompt node's payload is not data and is left out.
\<close>

definition flowNode :: "ident \<Rightarrow> node_row \<Rightarrow> node" where
  "flowNode i row =
     (let nodeData = (case data row of None \<Rightarrow> Map.empty | Some d \<Rightarrow> d);
          nodeType = (if truthy (js_get nodeData ''type'') then js_get nodeData ''type''
                      else JStr ''prompt'');
          baseNodeData = [''label'' \<mapsto> JStr (label row), ''type'' \<mapsto> nodeType];
          fullNodeData =
            (if nodeType = JStr ''prompt'' then
               baseNodeData(''prompt'' \<mapsto>
                 (if truthy (js_get nodeData ''prompt'') then js_get nodeData ''prompt''
                  else JStr []))
             else if nodeType = JStr ''analysis'' then
               baseNodeData(''childId'' \<mapsto> js_get nodeData ''childId'')
             else if nodeType = JStr ''conditional'' then
               baseNodeData(''trueChildId'' \<mapsto> js_get nodeData ''trueChildId'',
                            ''falseChildId'' \<mapsto> js_get nodeData ''falseChildId'')
             else baseNodeData)
      in \<lparr>node_id = i, position = (position_x row, position_y row),
          node_type = nodeType, node_data = fullNodeData\<rparr>)"

text \<open>
  \<^verbatim>\<open>updateGraphData\<close>: one batch of position writes, one request per node; a failed
  write is logged and the loop goes on. Its boolean result is read by no caller.
\<close>

definition updateGraphData :: "node list \<Rightarrow> edge list \<Rightarrow> state \<Rightarrow> state" where
  "updateGraphData newNodes newEdges st =
     fold (\<lambda>n s. snd (update_node_position (node_id n) (position n) s))
          newNodes
          (st\<lparr>batches := batches st @ [newNodes]\<rparr>)"

text \<open>
  \<^verbatim>\<open>debouncedUpdatePositions\<close>: clear the pending timeout, if any, and set a new one
  500 ms from now. The reference then holds the only pending timeout, with the arguments
  its callback captured.
\<close>

definition debouncedUpdatePositions :: "node list \<Rightarrow> edge list \<Rightarrow> state \<Rightarrow> state" where
  "debouncedUpdatePositions newNodes newEdges st =
     st\<lparr>positionUpdateTimeoutRef := Some (now st + 500, newNodes, newEdges)\<rparr>"

text \<open>The callback handed to \<^verbatim>\<open>setTimeout\<close>.\<close>

definition timeout_callback :: "node list \<Rightarrow> edge list \<Rightarrow> state \<Rightarrow> state" where
  "timeout_callback newNodes newEdges st =
     (updateGraphData newNodes newEdges st)\<lparr>positionUpdateTimeoutRef := None\<rparr>"

text \<open>
  Modelled from the spec: the runtime's timers (section 4.2: a trailing-edge debounce, one
  pending timer, fired after a quiet period of 500 ms). \<open>elapse dt\<close> lets \<open>dt\<close>
  milliseconds pass without an event: a pending timeout that falls due in that time runs
  at its due time.
\<close>

definition elapse :: "nat \<Rightarrow> state \<Rightarrow> state" where
  "elapse dt st =
     (let t = now st + dt
      in case positionUpdateTimeoutRef st of
           None \<Rightarrow> st\<lparr>now := t\<rparr>
         | Some (due, newNodes, newEdges) \<Rightarrow>
             if due \<le> t
             then (timeout_callback newNodes newEdges (st\<lparr>now := due\<rparr>))\<lparr>now := t\<rparr>
             else st\<lparr>now := t\<rparr>)"

text \<open>
  Modelled from the spec: the renderer library's \<^verbatim>\<open>applyEdgeChanges\<close> and
  \<^verbatim>\<open>applyNodeChanges\<close> (sections 4.2 and 4.4): a removal change drops the element
  with that id, a position change that carries a position moves the node with that id, and
  the changes of one element apply in order.
\<close>

definition applyEdgeChanges :: "edge_change list \<Rightarrow> edge list \<Rightarrow> edge list" where
  "applyEdgeChanges changes es = filter (\<lambda>e. EdgeRemove (edge_id e) \<notin> set changes) es"

fun applyChange :: "node_change \<Rightarrow> node \<Rightarrow> node" where
  "applyChange (NodePosition i (Some p)) n = (if node_id n = i then n\<lparr>position := p\<rparr> else n)"
| "applyChange _ n = n"

definition applyNodeChanges :: "node_change list \<Rightarrow> node list \<Rightarrow> node list" where
  "applyNodeChanges changes ns =
     map (\<lambda>n. fold applyChange changes n)
         (filter (\<lambda>n. NodeRemove (node_id n) \<notin> set changes) ns)"

text \<open>\<^verbatim>\<open>change.type === "remove"\<close> and \<^verbatim>\<open>change.id\<close>.\<close>

fun edge_change_is_remove :: "edge_change \<Rightarrow> bool" where
  "edge_change_is_remove (EdgeRemove _) = True"
| "edge_change_is_remove _ = False"

fun edge_change_id :: "edge_change \<Rightarrow> ident" where
  "edge_change_id (EdgeRemove i) = i"
| "edge_change_id (EdgeOther i) = i"

fun node_change_is_remove :: "node_change \<Rightarrow> bool" where
  "node_change_is_remove (NodeRemove _) = True"
| "node_change_is_remove _ = False"

fun node_change_id :: "node_change \<Rightarrow> ident" where
  "node_change_id (NodeRemove i) = i"
| "node_change_id (NodePosition i _) = i"
| "node_change_id (NodeOther i) = i"

text \<open>\<^verbatim>\<open>change.type === "position" && change.position\<close>.\<close>

fun is_position_change :: "node_change \<Rightarrow> bool" where
  "is_position_change (NodePosition _ (Some _)) = True"
| "is_position_change _ = False"

text \<open>
  \<^verbatim>\<open>onEdgesChangeCallback\<close>. \<open>removedEdges_body\<close> is the body of its loop over
  the removal changes; the result of \<^verbatim>\<open>deleteEdge\<close> is not read.
\<close>

definition removedEdges_body :: "state \<Rightarrow> edge_change \<Rightarrow> state \<Rightarrow> state" where
  "removedEdges_body r change s =
     (let edgeId = edge_change_id change
      in case find (\<lambda>e. edge_id e = edgeId) (edges r) of
           None \<Rightarrow> s
         | Some e \<Rightarrow>
             (let s1 = snd (deleteEdge edgeId s)
              in case find (\<lambda>n. node_id n = source e) (nodes r) of
                   None \<Rightarrow> s1
                 | Some sourceNode \<Rightarrow>
                     (case find (\<lambda>n. node_id n = target e) (nodes r) of
                        None \<Rightarrow> s1
                      | Some targetNode \<Rightarrow>
                          updateNodeRelationships sourceNode (node_id targetNode)
                            (or_undefined (sourceHandle e))
                            True s1)))"

definition onEdgesChangeCallback :: "state \<Rightarrow> edge_change list \<Rightarrow> state \<Rightarrow> state" where
  "onEdgesChangeCallback r changes st =
     (let newEdges = applyEdgeChanges changes (edges r);
          st1 = st\<lparr>edges := newEdges\<rparr>;
          removedEdges = filter edge_change_is_remove changes
      in fold (removedEdges_body r) removedEdges st1)"

text \<open>
  \<^verbatim>\<open>deleteNode\<close>. \<open>connectedEdges_body\<close> is the body of its loop over the edges
  that touch the node; the result of \<^verbatim>\<open>deleteEdge\<close> is not read.
\<close>

definition connectedEdges_body :: "state \<Rightarrow> ident \<Rightarrow> edge \<Rightarrow> state \<Rightarrow> state" where
  "connectedEdges_body r nodeId e s =
     (let s1 = snd (deleteEdge (edge_id e) s)
      in if target e = nodeId then
           (case find (\<lambda>n. node_id n = source e) (nodes r) of
              None \<Rightarrow> s1
            | Some sourceNode \<Rightarrow>
                updateNodeRelationships sourceNode nodeId
                  (or_undefined (sourceHandle e))
                  True s1)
         else s1)"

definition deleteNode :: "state \<Rightarrow> ident \<Rightarrow> state \<Rightarrow> bool \<times> state" where
  "deleteNode r nodeId st =
     (let st1 = st\<lparr>edges := filter (\<lambda>e. source e \<noteq> nodeId \<and> target e \<noteq> nodeId) (edges r)\<rparr>;
          st2 = st1\<lparr>nodes := filter (\<lambda>n. node_id n \<noteq> nodeId) (nodes r)\<rparr>;
          st3 = (if (case selectedNode r of None \<Rightarrow> False | Some sel \<Rightarrow> node_id sel = nodeId)
                 then st2\<lparr>selectedNode := None\<rparr> else st2);
          connectedEdges = filter (\<lambda>e. source e = nodeId \<or> target e = nodeId) (edges r);
          st4 = fold (connectedEdges_body r nodeId) connectedEdges st3
      in delete_node nodeId st4)"

text \<open>\<^verbatim>\<open>onNodesChangeCallback\<close>.\<close>

definition onNodesChangeCallback :: "state \<Rightarrow> node_change list \<Rightarrow> state \<Rightarrow> state" where
  "onNodesChangeCallback r changes st =
     (let deletionChanges = filter node_change_is_remove changes;
          otherChanges = filter (\<lambda>c. \<not> node_change_is_remove c) changes;
          st1 = fold (\<lambda>change s. snd (deleteNode r (node_change_id change) s))
                     deletionChanges st;
          newNodes = applyNodeChanges otherChanges (nodes r);
          st2 = st1\<lparr>nodes := newNodes\<rparr>;
          positionChanges = filter is_position_change otherChanges
      in if length positionChanges > 0 then debouncedUpdatePositions newNodes (edges r) st2
         else st2)"

text \<open>\<^verbatim>\<open>onConnect\<close>.\<close>

definition onConnect :: "state \<Rightarrow> connection \<Rightarrow> state \<Rightarrow> state" where
  "onConnect r params st =
     (case find (\<lambda>n. node_id n = params_source params) (nodes r) of
        None \<Rightarrow> st
      | Some sourceNode \<Rightarrow>
     (case find (\<lambda>n. node_id n = params_target params) (nodes r) of
        None \<Rightarrow> st
      | Some targetNode \<Rightarrow>
          if node_type sourceNode = JStr ''prompt'' then st
          else
            (let st1 =
                   (if node_type sourceNode = JStr ''analysis'' then
                      fold (\<lambda>e s. snd (deleteEdge (edge_id e) s))
                           (filter (\<lambda>e. source e = node_id sourceNode) (edges r)) st
                    else st);
                 st2 =
                   (if node_type sourceNode = JStr ''conditional''
                       \<and> truthy_handle (params_sourceHandle params) then
                      fold (\<lambda>e s. snd (deleteEdge (edge_id e) s))
                           (filter (\<lambda>e. source e = params_source params
                                         \<and> sourceHandle e = params_sourceHandle params)
                                   (edges r)) st1
                    else st1)
             in case createEdge (node_id sourceNode) (node_id targetNode)
                       (params_sourceHandle params) st2 of
                  (None, st3) \<Rightarrow> st3
                | (Some newEdgeObj, st3) \<Rightarrow>
                    (let st4 = updateNodeRelationships sourceNode (node_id targetNode)
                                 (params_sourceHandle params) False st3;
                         filteredEdges =
                           filter (\<lambda>e.
                                     if node_type sourceNode = JStr ''analysis'' then
                                       source e \<noteq> node_id sourceNode
                                     else if node_type sourceNode = JStr ''conditional''
                                             \<and> truthy_handle (params_sourceHandle params) then
                                       \<not> (source e = node_id sourceNode
                                          \<and> sourceHandle e = params_sourceHandle params)
                                     else True)
                                  (edges st4)
                     in st4\<lparr>edges := filteredEdges @ [newEdgeObj]\<rparr>))))"

text \<open>
  \<^verbatim>\<open>handleAddNode\<close>. The new node is created at the fixed canvas position
  \<open>(500, 300)\<close>.
\<close>

definition handleAddNode :: "state \<Rightarrow> string \<Rightarrow> string \<Rightarrow> state \<Rightarrow> state" where
  "handleAddNode r type_name label_text st =
     (if graphId st = [] \<or> label_text = [] \<or> type_name = [] then st
      else
        (let center = (500, 300);
             nodeData = (if type_name = ''prompt''
                         then [''type'' \<mapsto> JStr type_name, ''prompt'' \<mapsto> JStr []]
                         else [''type'' \<mapsto> JStr type_name])
         in case insert_node \<lparr>graph_id = graphId st, label = label_text,
                               position_x = fst center, position_y = snd center,
                               data = Some nodeData\<rparr> st of
              (None, st1) \<Rightarrow> st1
            | (Some newNodeId, st1) \<Rightarrow>
                (let newNode =
                       \<lparr>node_id = newNodeId, position = center, node_type = JStr type_name,
                        node_data =
                          (if type_name = ''prompt''
                           then [''label'' \<mapsto> JStr label_text, ''type'' \<mapsto> JStr type_name,
                                 ''prompt'' \<mapsto> JStr []]
                           else [''label'' \<mapsto> JStr label_text, ''type'' \<mapsto> JStr type_name])\<rparr>;
                     st2 = st1\<lparr>nodes := nodes r @ [newNode]\<rparr>
                 in case selectedNode r of
                      None \<Rightarrow> st2
                    | Some sel \<Rightarrow>
                        if node_type sel = JStr ''prompt'' then st2
                        else
                          (let h =
                                 (if node_type sel = JStr ''conditional'' then
                                    (if \<not> list_ex (\<lambda>e. source e = node_id sel
                                                       \<and> sourceHandle e = Some ''true'')
                                                  (edges r)
                                     then Some ''true''
                                     else if \<not> list_ex (\<lambda>e. source e = node_id sel
                                                            \<and> sourceHandle e = Some ''false'')
                                                       (edges r)
                                     then Some ''false''
                                     else None)
                                  else None)
                           in case createEdge (node_id sel) newNodeId h st2 of
                                (None, st3) \<Rightarrow> st3
                              | (Some newEdge, st3) \<Rightarrow>
                                  (let st4 = updateNodeRelationships sel newNodeId h False st3
                                   in st4\<lparr>edges := edges st4 @ [newEdge]\<rparr>)))))"

section \<open>Sequences of events\<close>

text \<open>
  Events are dispatched one at a time, each on the render that follows the previous
  event: the callback's render is the current state.
\<close>

definition connects :: "connection list \<Rightarrow> state \<Rightarrow> state" where
  "connects ps st = fold (\<lambda>params s. onConnect s params s) ps st"

text \<open>
  A stream of node-change events, each with the time in milliseconds that passed since
  the previous one.
\<close>

definition node_events :: "(nat \<times> node_change list) list \<Rightarrow> state \<Rightarrow> state" where
  "node_events evs st =
     fold (\<lambda>ev s. let s' = elapse (fst ev) s in onNodesChangeCallback s' (snd ev) s') evs st"

section \<open>Vocabulary of the properties\<close>

text \<open>
  The payload update that \<^verbatim>\<open>updateNodeRelationships\<close> hands to
  \<^verbatim>\<open>updateNodeData\<close>, as a function of its arguments (empty when it makes no call),
  and the key that update writes.
\<close>

definition relationship_update :: "node \<Rightarrow> ident \<Rightarrow> string option \<Rightarrow> bool \<Rightarrow> payload" where
  "relationship_update sourceNode targetId h isRemove =
     (let v = (if isRemove then JUndefined else JStr targetId)
      in if node_type sourceNode = JStr ''analysis'' then [''childId'' \<mapsto> v]
         else if node_type sourceNode = JStr ''conditional'' \<and> h = Some ''true''
           then [''trueChildId'' \<mapsto> v]
         else if node_type sourceNode = JStr ''conditional'' \<and> h = Some ''false''
           then [''falseChildId'' \<mapsto> v]
         else Map.empty)"

definition relationship_key :: "node \<Rightarrow> string option \<Rightarrow> string option" where
  "relationship_key sourceNode h =
     (if node_type sourceNode = JStr ''analysis'' then Some ''childId''
      else if node_type sourceNode = JStr ''conditional'' \<and> h = Some ''true''
        then Some ''trueChildId''
      else if node_type sourceNode = JStr ''conditional'' \<and> h = Some ''false''
        then Some ''falseChildId''
      else None)"

text \<open>The edges that the state update at the end of \<^verbatim>\<open>onConnect\<close> keeps.\<close>

definition connect_keeps :: "node \<Rightarrow> string option \<Rightarrow> edge \<Rightarrow> bool" where
  "connect_keeps sourceNode h e =
     (if node_type sourceNode = JStr ''analysis'' then source e \<noteq> node_id sourceNode
      else if node_type sourceNode = JStr ''conditional'' \<and> truthy_handle h
        then \<not> (source e = node_id sourceNode \<and> sourceHandle e = h)
      else True)"

text \<open>The local edges that leave a node, and those that leave it on a given handle.\<close>

definition outgoing :: "ident \<Rightarrow> state \<Rightarrow> edge list" where
  "outgoing a st = filter (\<lambda>e. source e = a) (edges st)"

definition outgoing_on :: "ident \<Rightarrow> string \<Rightarrow> state \<Rightarrow> edge list" where
  "outgoing_on a h st = filter (\<lambda>e. source e = a \<and> sourceHandle e = Some h) (edges st)"

text \<open>
  A payload field of the node \<open>a\<close> mirrors a list of edges: there is at most one edge,
  the field holds its target, and the field is absent when there is none.
\<close>

definition mirrors :: "ident \<Rightarrow> string \<Rightarrow> edge list \<Rightarrow> state \<Rightarrow> bool" where
  "mirrors a key es st =
     (case es of
        [] \<Rightarrow> (\<forall>n\<in>set (nodes st). node_id n = a \<longrightarrow> absent (node_data n) key)
      | [e] \<Rightarrow> (\<forall>n\<in>set (nodes st). node_id n = a \<longrightarrow> node_data n key = Some (JStr (target e)))
      | _ \<Rightarrow> False)"

text \<open>The payload field \<open>k\<close> is absent on the local node \<open>a\<close>.\<close>

definition cleared :: "ident \<Rightarrow> string \<Rightarrow> state \<Rightarrow> bool" where
  "cleared a k st = (\<forall>n\<in>set (nodes st). node_id n = a \<longrightarrow> absent (node_data n) k)"

text \<open>The local view holds a node with id \<open>a\<close>, and \<^verbatim>\<open>nodes.find\<close> gives it type \<open>ty\<close>.\<close>

definition node_of_type :: "ident \<Rightarrow> string \<Rightarrow> state \<Rightarrow> bool" where
  "node_of_type a ty st =
     (case find (\<lambda>n. node_id n = a) (nodes st) of
        None \<Rightarrow> False
      | Some n \<Rightarrow> node_type n = JStr ty)"

text \<open>The payload a fetched row holds (\<^verbatim>\<open>node.data || {}\<close>).\<close>

definition stored_payload :: "node_row \<Rightarrow> payload" where
  "stored_payload row = (case data row of None \<Rightarrow> Map.empty | Some d \<Rightarrow> d)"

text \<open>
  A change event of a drag: it removes nothing and carries at least one position change
  with a position.
\<close>

definition position_event :: "node_change list \<Rightarrow> bool" where
  "position_event changes =
     (list_all (\<lambda>c. \<not> node_change_is_remove c) changes \<and> list_ex is_position_change changes)"

section \<open>Example graphs\<close>

text \<open>
  Concrete views for the scenarios of the specification. \<open>mk_state\<close> is a freshly loaded
  view that agrees with the store; its last argument lists the outcomes of the remote
  requests to come.
\<close>

definition mk_node :: "ident \<Rightarrow> string \<Rightarrow> payload \<Rightarrow> node" where
  "mk_node i ty extra =
     \<lparr>node_id = i, position = (0, 0), node_type = JStr ty,
      node_data = [''label'' \<mapsto> JStr i, ''type'' \<mapsto> JStr ty] ++ extra\<rparr>"

definition mk_edge :: "ident \<Rightarrow> ident \<Rightarrow> ident \<Rightarrow> string option \<Rightarrow> edge" where
  "mk_edge i s t h = \<lparr>edge_id = i, source = s, target = t, sourceHandle = h\<rparr>"

definition mk_state :: "node list \<Rightarrow> edge list \<Rightarrow> node option \<Rightarrow> ident option list \<Rightarrow> state" where
  "mk_state ns es sel rs =
     \<lparr>graphId = ''g'', nodes = ns, edges = es, selectedNode = sel,
      positionUpdateTimeoutRef = None, now = 0,
      db_nodes = map_of (map (\<lambda>n. (node_id n,
                   \<lparr>graph_id = ''g'', label = node_id n, position_x = fst (position n),
                    position_y = snd (position n), data = Some (node_data n)\<rparr>)) ns),
      db_edges = map_of (map (\<lambda>e. (edge_id e,
                   \<lparr>source_node_id = source e, target_node_id = target e\<rparr>)) es),
      responses = rs, batches = []\<rparr>"

text \<open>Nodes A (analysis), B and C (prompt), no edge; every request succeeds.\<close>

definition graph_ABC :: state where
  "graph_ABC =
     mk_state [mk_node ''A'' ''analysis'' Map.empty, mk_node ''B'' ''prompt'' Map.empty,
               mk_node ''C'' ''prompt'' Map.empty]
       [] None
       [Some ''e1'', Some ''ok'', Some ''ok'', Some ''ok'', Some ''e2'', Some ''ok'', Some ''ok'']"

definition connect_AB_AC :: "connection list" where
  "connect_AB_AC =
     [\<lparr>params_source = ''A'', params_target = ''B'', params_sourceHandle = None\<rparr>,
      \<lparr>params_source = ''A'', params_target = ''C'', params_sourceHandle = None\<rparr>]"

text \<open>Nodes D (conditional), E and F (prompt), no edge; every request succeeds.\<close>

definition graph_DEF :: state where
  "graph_DEF =
     mk_state [mk_node ''D'' ''conditional'' Map.empty, mk_node ''E'' ''prompt'' Map.empty,
               mk_node ''F'' ''prompt'' Map.empty]
       [] None
       [Some ''e1'', Some ''ok'', Some ''ok'', Some ''ok'', Some ''e2'', Some ''ok'', Some ''ok'']"

definition connect_DE_DF :: "connection list" where
  "connect_DE_DF =
     [\<lparr>params_source = ''D'', params_target = ''E'', params_sourceHandle = Some ''true''\<rparr>,
      \<lparr>params_source = ''D'', params_target = ''F'', params_sourceHandle = Some ''true''\<rparr>]"

text \<open>
  Node A (analysis) with its child B (prompt) and the edge e1 between them; the selected
  node and the outcomes of the requests are arguments.
\<close>

definition graph_AB :: "ident option \<Rightarrow> ident option list \<Rightarrow> state" where
  "graph_AB sel rs =
     mk_state [mk_node ''A'' ''analysis'' [''childId'' \<mapsto> JStr ''B''],
               mk_node ''B'' ''prompt'' Map.empty]
       [mk_edge ''e1'' ''A'' ''B'' None]
       (case sel of
          None \<Rightarrow> None
        | Some i \<Rightarrow> find (\<lambda>n. node_id n = i)
                     [mk_node ''A'' ''analysis'' [''childId'' \<mapsto> JStr ''B''],
                      mk_node ''B'' ''prompt'' Map.empty])
       rs"

text \<open>
  Node A (analysis) with its child B, the edge e1 between them, and a third node C;
  every request succeeds.
\<close>

definition graph_ABC_e1 :: state where
  "graph_ABC_e1 =
     mk_state [mk_node ''A'' ''analysis'' [''childId'' \<mapsto> JStr ''B''],
               mk_node ''B'' ''prompt'' Map.empty, mk_node ''C'' ''prompt'' Map.empty]
       [mk_edge ''e1'' ''A'' ''B'' None] None
       [Some ''ok'', Some ''ok'', Some ''ok'', Some ''ok'', Some ''ok'']"

text \<open>A is selected; the node insert and the edge insert succeed.\<close>

definition graph_AB_add :: state where
  "graph_AB_add = graph_AB (Some ''A'') [Some ''N'', Some ''e2'', Some ''ok'', Some ''ok'']"

text \<open>The remote delete of e1 fails; the requests after it succeed.\<close>

definition graph_AB_offline :: state where
  "graph_AB_offline = graph_AB None [None, Some ''ok'', Some ''ok'']"

text \<open>B is selected; every request succeeds.\<close>

definition graph_AB_online :: state where
  "graph_AB_online = graph_AB (Some ''B'') [Some ''ok'', Some ''ok'', Some ''ok'', Some ''ok'']"

text \<open>
  Node D (conditional) is selected and has the edge e1 to E on handle \<open>true\<close>; the node
  insert and the edge insert succeed.
\<close>

definition graph_DE_add :: state where
  "graph_DE_add =
     mk_state [mk_node ''D'' ''conditional'' [''trueChildId'' \<mapsto> JStr ''E''],
               mk_node ''E'' ''prompt'' Map.empty]
       [mk_edge ''e1'' ''D'' ''E'' (Some ''true'')]
       (Some (mk_node ''D'' ''conditional'' [''trueChildId'' \<mapsto> JStr ''E'']))
       [Some ''G'', Some ''e2'', Some ''ok'', Some ''ok'']"

text \<open>Two drag events on A, 100 ms apart.\<close>

definition drag_A :: "(nat \<times> node_change list) list" where
  "drag_A =
     [(0, [NodePosition ''A'' (Some (10, 10))]),
      (100, [NodePosition ''A'' (Some (20, 20))])]"

text \<open>Fetched rows: one whose stored type is not a node type, one with no stored type.\<close>

definition row_foo :: node_row where
  "row_foo = \<lparr>graph_id = ''g'', label = ''X'', position_x = 0, position_y = 0,
              data = Some [''type'' \<mapsto> JStr ''foo'']\<rparr>"

definition row_untyped :: node_row where
  "row_untyped = \<lparr>graph_id = ''g'', label = ''Y'', position_x = 0, position_y = 0,
                  data = Some [''prompt'' \<mapsto> JStr ''hello'']\<rparr>"

section \<open>Auxiliary lemmas\<close>

subsection \<open>What the remote requests leave alone\<close>

text \<open>
  A remote request changes the store and consumes an outcome; it never touches the local
  view. \<^verbatim>\<open>updateNodeData\<close> and \<^verbatim>\<open>updateNodeRelationships\<close> change the local
  view by a map over the node list, whatever the store answers.
\<close>

lemma delete_edge_frame [simp]:
  "nodes (snd (delete_edge i st)) = nodes st"
  "edges (snd (delete_edge i st)) = edges st"
  "selectedNode (snd (delete_edge i st)) = selectedNode st"
  by (simp_all add: delete_edge_def respond_def split: option.splits)

lemma deleteEdge_frame [simp]:
  "nodes (snd (deleteEdge i st)) = nodes st"
  "edges (snd (deleteEdge i st)) = edges st"
  "selectedNode (snd (deleteEdge i st)) = selectedNode st"
  by (simp_all add: deleteEdge_def)

lemma fold_deleteEdge_frame [simp]:
  "nodes (fold (\<lambda>e s. snd (deleteEdge (edge_id e) s)) es st) = nodes st"
  "edges (fold (\<lambda>e s. snd (deleteEdge (edge_id e) s)) es st) = edges st"
  "selectedNode (fold (\<lambda>e s. snd (deleteEdge (edge_id e) s)) es st) = selectedNode st"
  by (induction es arbitrary: st) simp_all

lemma delete_node_frame [simp]:
  "nodes (snd (delete_node i st)) = nodes st"
  "edges (snd (delete_node i st)) = edges st"
  "selectedNode (snd (delete_node i st)) = selectedNode st"
  by (simp_all add: delete_node_def respond_def split: option.splits)

lemma select_node_frame [simp]:
  "nodes (snd (select_node i st)) = nodes st"
  "edges (snd (select_node i st)) = edges st"
  "selectedNode (snd (select_node i st)) = selectedNode st"
  by (simp_all add: select_node_def respond_def split: option.splits)

lemma update_node_data_frame [simp]:
  "nodes (snd (update_node_data i d st)) = nodes st"
  "edges (snd (update_node_data i d st)) = edges st"
  "selectedNode (snd (update_node_data i d st)) = selectedNode st"
  by (simp_all add: update_node_data_def respond_def split: option.splits)

lemma updateNodeData_local [simp]:
  "nodes (snd (updateNodeData i d st)) =
     map (\<lambda>n. if node_id n = i then n\<lparr>node_data := node_data n ++ d\<rparr> else n) (nodes st)"
  "edges (snd (updateNodeData i d st)) = edges st"
  "selectedNode (snd (updateNodeData i d st)) = selectedNode st"
proof -
  let ?st1 = "st\<lparr>nodes := map (\<lambda>n. if node_id n = i then n\<lparr>node_data := node_data n ++ d\<rparr> else n) (nodes st)\<rparr>"
  show "nodes (snd (updateNodeData i d st)) =
     map (\<lambda>n. if node_id n = i then n\<lparr>node_data := node_data n ++ d\<rparr> else n) (nodes st)"
    unfolding updateNodeData_def Let_def
    by (cases "select_node i ?st1"; cases "fst (select_node i ?st1)")
       (use select_node_frame(1)[of i ?st1] in auto)
  show "edges (snd (updateNodeData i d st)) = edges st"
    unfolding updateNodeData_def Let_def
    by (cases "select_node i ?st1"; cases "fst (select_node i ?st1)")
       (use select_node_frame(2)[of i ?st1] in auto)
  show "selectedNode (snd (updateNodeData i d st)) = selectedNode st"
    unfolding updateNodeData_def Let_def
    by (cases "select_node i ?st1"; cases "fst (select_node i ?st1)")
       (use select_node_frame(3)[of i ?st1] in auto)
qed

lemma insert_edge_frame [simp]:
  "nodes (snd (insert_edge row st)) = nodes st"
  "edges (snd (insert_edge row st)) = edges st"
  "selectedNode (snd (insert_edge row st)) = selectedNode st"
  by (simp_all add: insert_edge_def respond_def split: option.splits)

lemma insert_node_frame [simp]:
  "nodes (snd (insert_node row st)) = nodes st"
  "edges (snd (insert_node row st)) = edges st"
  "selectedNode (snd (insert_node row st)) = selectedNode st"
  by (simp_all add: insert_node_def respond_def split: option.splits)

lemma createEdge_frame [simp]:
  "nodes (snd (createEdge s t h st)) = nodes st"
  "edges (snd (createEdge s t h st)) = edges st"
  "selectedNode (snd (createEdge s t h st)) = selectedNode st"
proof -
  have "snd (createEdge s t h st) = snd (insert_edge \<lparr>source_node_id = s, target_node_id = t\<rparr> st)"
    by (simp add: createEdge_def split: prod.splits option.splits)
  then show "nodes (snd (createEdge s t h st)) = nodes st"
    "edges (snd (createEdge s t h st)) = edges st"
    "selectedNode (snd (createEdge s t h st)) = selectedNode st"
    by simp_all
qed

lemma createEdge_Some:
  "fst (createEdge s t h st) = Some e \<Longrightarrow>
     source e = s \<and> target e = t \<and> sourceHandle e = (if truthy_handle h then h else None)"
  by (auto simp: createEdge_def split: prod.splits option.splits)

lemma map_node_data_id [simp]:
  "map (\<lambda>n. if node_id n = i then n\<lparr>node_data := node_data n ++ Map.empty\<rparr> else n) ns = ns"
  by (induction ns) auto

lemma updateNodeRelationships_local [simp]:
  "nodes (updateNodeRelationships sn t h rm st) =
     map (\<lambda>n. if node_id n = node_id sn
               then n\<lparr>node_data := node_data n ++ relationship_update sn t h rm\<rparr> else n)
         (nodes st)"
  "edges (updateNodeRelationships sn t h rm st) = edges st"
  "selectedNode (updateNodeRelationships sn t h rm st) = selectedNode st"
  by (simp_all add: updateNodeRelationships_def relationship_update_def Let_def cong: if_cong)

subsection \<open>The local effect of a connect operation\<close>

lemma find_SomeD: "find P xs = Some x \<Longrightarrow> P x \<and> x \<in> set xs"
  by (induction xs) (auto split: if_splits)

lemma onConnect_local:
  assumes "find (\<lambda>n. node_id n = params_source p) (nodes st) = Some sn"
    and "find (\<lambda>n. node_id n = params_target p) (nodes st) = Some tn"
    and "node_type sn \<noteq> JStr ''prompt''"
  shows "(nodes (onConnect st p st) = nodes st \<and> edges (onConnect st p st) = edges st)
       \<or> (\<exists>i. nodes (onConnect st p st) =
                map (\<lambda>n. if node_id n = node_id sn
                          then n\<lparr>node_data := node_data n ++
                                  relationship_update sn (node_id tn) (params_sourceHandle p) False\<rparr>
                          else n) (nodes st)
            \<and> edges (onConnect st p st) =
                filter (connect_keeps sn (params_sourceHandle p)) (edges st)
                @ [\<lparr>edge_id = i, source = node_id sn, target = node_id tn,
                    sourceHandle = (if truthy_handle (params_sourceHandle p)
                                    then params_sourceHandle p else None)\<rparr>])"
proof -
  define st2 where "st2 =
    (let st1 = (if node_type sn = JStr ''analysis'' then
                      fold (\<lambda>e s. snd (deleteEdge (edge_id e) s))
                           (filter (\<lambda>e. source e = node_id sn) (edges st)) st
                    else st)
     in (if node_type sn = JStr ''conditional''
                       \<and> truthy_handle (params_sourceHandle p) then
                      fold (\<lambda>e s. snd (deleteEdge (edge_id e) s))
                           (filter (\<lambda>e. source e = params_source p
                                         \<and> sourceHandle e = params_sourceHandle p)
                                   (edges st)) st1
                    else st1))"
  have st2: "nodes st2 = nodes st" "edges st2 = edges st"
    by (simp_all add: st2_def Let_def)
  obtain x st3 where ce: "createEdge (node_id sn) (node_id tn) (params_sourceHandle p) st2 = (x, st3)"
    by (cases "createEdge (node_id sn) (node_id tn) (params_sourceHandle p) st2")
  have st3: "nodes st3 = nodes st" "edges st3 = edges st"
    using createEdge_frame(1,2)[of "node_id sn" "node_id tn" "params_sourceHandle p" st2] ce st2
    by simp_all
  have unf: "onConnect st p st =
     (case x of None \<Rightarrow> st3
      | Some newEdgeObj \<Rightarrow>
         (let st4 = updateNodeRelationships sn (node_id tn) (params_sourceHandle p) False st3
          in st4\<lparr>edges := filter (connect_keeps sn (params_sourceHandle p)) (edges st4) @ [newEdgeObj]\<rparr>))"
    using ce unfolding onConnect_def st2_def Let_def connect_keeps_def[abs_def]
    by (simp only: assms option.case if_False prod.case)
  show ?thesis
  proof (cases x)
    case None
    then show ?thesis using unf st3 by simp
  next
    case (Some e)
    have "source e = node_id sn \<and> target e = node_id tn \<and>
          sourceHandle e = (if truthy_handle (params_sourceHandle p) then params_sourceHandle p else None)"
      using createEdge_Some[of "node_id sn" "node_id tn" "params_sourceHandle p" st2 e] ce Some
      by simp
    then have e: "e = \<lparr>edge_id = edge_id e, source = node_id sn, target = node_id tn,
                    sourceHandle = (if truthy_handle (params_sourceHandle p)
                                    then params_sourceHandle p else None)\<rparr>"
      by (cases e) simp
    have "nodes (onConnect st p st) =
                map (\<lambda>n. if node_id n = node_id sn
                          then n\<lparr>node_data := node_data n ++
                                  relationship_update sn (node_id tn) (params_sourceHandle p) False\<rparr>
                          else n) (nodes st)"
      using unf Some st3 by (simp add: Let_def)
    moreover have "edges (onConnect st p st) =
                filter (connect_keeps sn (params_sourceHandle p)) (edges st) @ [e]"
      using unf Some st3 by (simp add: Let_def)
    ultimately show ?thesis using e by metis
  qed
qed

subsection \<open>Invariants of sequences of connect operations\<close>

lemma find_map_payload:
  "find (\<lambda>n. node_id n = a) (map (\<lambda>n. if node_id n = i then n\<lparr>node_data := f n\<rparr> else n) ns) =
   map_option (\<lambda>n. if node_id n = i then n\<lparr>node_data := f n\<rparr> else n) (find (\<lambda>n. node_id n = a) ns)"
  by (induction ns) auto

lemma node_of_type_map_payload:
  "nodes st' = map (\<lambda>n. if node_id n = i then n\<lparr>node_data := f n\<rparr> else n) (nodes st) \<Longrightarrow>
   node_of_type a ty st' = node_of_type a ty st"
  by (auto simp: node_of_type_def find_map_payload split: option.splits)

lemma fold_invariant:
  "P st \<Longrightarrow> (\<And>s x. P s \<Longrightarrow> x \<in> set xs \<Longrightarrow> P (f x s)) \<Longrightarrow> P (fold f xs st)"
  by (induction xs arbitrary: st) auto

lemma onConnect_no_target:
  "find (\<lambda>n. node_id n = params_target p) (nodes r) = None \<Longrightarrow> onConnect r p st = st"
  by (simp add: onConnect_def split: option.splits)

lemma analysis_step:
  assumes ty: "node_of_type a ''analysis'' st"
    and inv: "mirrors a ''childId'' (outgoing a st) st"
    and src: "params_source p = a"
  shows "node_of_type a ''analysis'' (onConnect st p st)
       \<and> mirrors a ''childId'' (outgoing a (onConnect st p st)) (onConnect st p st)"
proof -
  from ty obtain sn where sn: "find (\<lambda>n. node_id n = a) (nodes st) = Some sn"
    and snty: "node_type sn = JStr ''analysis''"
    by (auto simp: node_of_type_def split: option.splits)
  from sn have sna: "node_id sn = a" using find_SomeD by fastforce
  show ?thesis
  proof (cases "find (\<lambda>n. node_id n = params_target p) (nodes st)")
    case None
    then show ?thesis using ty inv by (simp add: onConnect_no_target)
  next
    case (Some tn)
    let ?st' = "onConnect st p st"
    from onConnect_local[of p st sn tn] sn src Some snty
    consider (same) "nodes ?st' = nodes st" "edges ?st' = edges st"
      | (linked) i where
          "nodes ?st' = map (\<lambda>n. if node_id n = node_id sn
                          then n\<lparr>node_data := node_data n ++
                                  relationship_update sn (node_id tn) (params_sourceHandle p) False\<rparr>
                          else n) (nodes st)"
          "edges ?st' = filter (connect_keeps sn (params_sourceHandle p)) (edges st)
                @ [\<lparr>edge_id = i, source = node_id sn, target = node_id tn,
                    sourceHandle = (if truthy_handle (params_sourceHandle p)
                                    then params_sourceHandle p else None)\<rparr>]"
      by auto
    then show ?thesis
    proof cases
      case same
      then show ?thesis using ty inv
        by (simp add: node_of_type_def mirrors_def outgoing_def split: list.splits)
    next
      case linked
      have out: "outgoing a ?st' = [\<lparr>edge_id = i, source = node_id sn, target = node_id tn,
                    sourceHandle = (if truthy_handle (params_sourceHandle p)
                                    then params_sourceHandle p else None)\<rparr>]"
        using snty sna by (simp add: outgoing_def linked(2) connect_keeps_def)
      have upd: "relationship_update sn (node_id tn) (params_sourceHandle p) False
                   = [''childId'' \<mapsto> JStr (node_id tn)]"
        using snty by (simp add: relationship_update_def)
      have "mirrors a ''childId'' (outgoing a ?st') ?st'"
        unfolding out mirrors_def using sna by (auto simp: linked(1) upd)
      moreover have "node_of_type a ''analysis'' ?st'"
        using node_of_type_map_payload[OF linked(1)] ty by simp
      ultimately show ?thesis by simp
    qed
  qed
qed

lemma mirrors_length: "mirrors a key es st \<Longrightarrow> length es \<le> 1"
  by (auto simp: mirrors_def split: list.splits)

lemma mirrors_map:
  assumes "nodes st' = map f (nodes st)"
    and "\<And>n. node_id (f n) = node_id n"
    and "\<And>n. node_id n = a \<Longrightarrow> node_data (f n) key = node_data n key"
  shows "mirrors a key es st' = mirrors a key es st"
proof (cases es)
  case Nil
  then show ?thesis by (simp add: mirrors_def absent_def js_get_def assms)
next
  case (Cons e es')
  then show ?thesis by (cases es') (simp_all add: mirrors_def assms)
qed

lemma mirrors_other_key:
  assumes "nodes st' = map (\<lambda>n. if node_id n = i then n\<lparr>node_data := node_data n ++ [k' \<mapsto> v]\<rparr> else n) (nodes st)"
    and "k' \<noteq> key"
  shows "mirrors a key es st' = mirrors a key es st"
  by (rule mirrors_map[OF assms(1)]) (use assms(2) in auto)

lemma conditional_step:
  assumes ty: "node_of_type d ''conditional'' st"
    and invT: "mirrors d ''trueChildId'' (outgoing_on d ''true'' st) st"
    and invF: "mirrors d ''falseChildId'' (outgoing_on d ''false'' st) st"
    and src: "params_source p = d"
    and hd: "params_sourceHandle p = Some ''true'' \<or> params_sourceHandle p = Some ''false''"
  shows "node_of_type d ''conditional'' (onConnect st p st)
       \<and> mirrors d ''trueChildId'' (outgoing_on d ''true'' (onConnect st p st)) (onConnect st p st)
       \<and> mirrors d ''falseChildId'' (outgoing_on d ''false'' (onConnect st p st)) (onConnect st p st)"
proof -
  from ty obtain sn where sn: "find (\<lambda>n. node_id n = d) (nodes st) = Some sn"
    and snty: "node_type sn = JStr ''conditional''"
    by (auto simp: node_of_type_def split: option.splits)
  from sn have sna: "node_id sn = d" using find_SomeD by fastforce
  let ?st' = "onConnect st p st"
  show ?thesis
  proof (cases "find (\<lambda>n. node_id n = params_target p) (nodes st)")
    case None
    then show ?thesis using ty invT invF by (simp add: onConnect_no_target)
  next
    case (Some tn)
    from onConnect_local[of p st sn tn] sn src Some snty
    consider (same) "nodes ?st' = nodes st" "edges ?st' = edges st"
      | (linked) i where
          "nodes ?st' = map (\<lambda>n. if node_id n = node_id sn
                          then n\<lparr>node_data := node_data n ++
                                  relationship_update sn (node_id tn) (params_sourceHandle p) False\<rparr>
                          else n) (nodes st)"
          "edges ?st' = filter (connect_keeps sn (params_sourceHandle p)) (edges st)
                @ [\<lparr>edge_id = i, source = node_id sn, target = node_id tn,
                    sourceHandle = (if truthy_handle (params_sourceHandle p)
                                    then params_sourceHandle p else None)\<rparr>]"
      by auto
    then show ?thesis
    proof cases
      case same
      then show ?thesis using ty invT invF
        by (simp add: node_of_type_def mirrors_def outgoing_on_def split: list.splits)
    next
      case linked
      have nty: "node_of_type d ''conditional'' ?st'"
        using node_of_type_map_payload[OF linked(1)] ty by simp
      from hd show ?thesis
      proof
        assume h: "params_sourceHandle p = Some ''true''"
        have outT: "outgoing_on d ''true'' ?st' =
            [\<lparr>edge_id = i, source = node_id sn, target = node_id tn, sourceHandle = Some ''true''\<rparr>]"
          using snty sna h
          by (simp add: outgoing_on_def linked(2) connect_keeps_def truthy_handle_def)
        have outF: "outgoing_on d ''false'' ?st' = outgoing_on d ''false'' st"
          using snty sna h
          by (auto simp: outgoing_on_def linked(2) connect_keeps_def truthy_handle_def
                   intro: filter_cong)
        have upd: "relationship_update sn (node_id tn) (params_sourceHandle p) False
                   = [''trueChildId'' \<mapsto> JStr (node_id tn)]"
          using snty h by (simp add: relationship_update_def)
        have "mirrors d ''trueChildId'' (outgoing_on d ''true'' ?st') ?st'"
          unfolding outT mirrors_def using sna by (auto simp: linked(1) upd)
        moreover have "mirrors d ''falseChildId'' (outgoing_on d ''false'' ?st') ?st'"
          unfolding outF using mirrors_other_key[OF linked(1)[unfolded upd], of "''falseChildId''"] invF
          by simp
        ultimately show ?thesis using nty by simp
      next
        assume h: "params_sourceHandle p = Some ''false''"
        have outF: "outgoing_on d ''false'' ?st' =
            [\<lparr>edge_id = i, source = node_id sn, target = node_id tn, sourceHandle = Some ''false''\<rparr>]"
          using snty sna h
          by (simp add: outgoing_on_def linked(2) connect_keeps_def truthy_handle_def)
        have outT: "outgoing_on d ''true'' ?st' = outgoing_on d ''true'' st"
          using snty sna h
          by (auto simp: outgoing_on_def linked(2) connect_keeps_def truthy_handle_def
                   intro: filter_cong)
        have upd: "relationship_update sn (node_id tn) (params_sourceHandle p) False
                   = [''falseChildId'' \<mapsto> JStr (node_id tn)]"
          using snty h by (simp add: relationship_update_def)
        have "mirrors d ''falseChildId'' (outgoing_on d ''false'' ?st') ?st'"
          unfolding outF mirrors_def using sna by (auto simp: linked(1) upd)
        moreover have "mirrors d ''trueChildId'' (outgoing_on d ''true'' ?st') ?st'"
          unfolding outT using mirrors_other_key[OF linked(1)[unfolded upd], of "''trueChildId''"] invT
          by simp
        ultimately show ?thesis using nty by simp
      qed
    qed
  qed
qed

subsection \<open>Clearing relationship fields\<close>

text \<open>
  A removal only ever writes \<^verbatim>\<open>undefined\<close> into payloads, so a field that is absent
  stays absent through the rest of a loop, and a loop that reaches the edge clears its
  field.
\<close>

lemma relationship_update_remove:
  "relationship_update sn t h True =
     (case relationship_key sn h of None \<Rightarrow> Map.empty | Some k \<Rightarrow> [k \<mapsto> JUndefined])"
  by (simp add: relationship_update_def relationship_key_def)

lemma cleared_cong: "nodes s' = nodes s \<Longrightarrow> cleared a k s' = cleared a k s"
  by (simp add: cleared_def)

lemma cleared_unlink_preserved:
  "cleared a k s \<Longrightarrow> cleared a k (updateNodeRelationships sn t h True s)"
  by (auto simp: cleared_def relationship_update_remove absent_def js_get_def map_add_def
           split: option.splits if_splits)

lemma cleared_unlink:
  "relationship_key sn h = Some k \<Longrightarrow> cleared (node_id sn) k (updateNodeRelationships sn t h True s)"
  by (auto simp: cleared_def relationship_update_remove absent_def js_get_def)

lemma fold_establish:
  assumes "\<And>x s. P s \<Longrightarrow> P (f x s)" and "\<And>s. P (f y s)" and "y \<in> set xs"
  shows "P (fold f xs st)"
  using assms(3)
proof (induction xs arbitrary: st)
  case Nil
  then show ?case by simp
next
  case (Cons x xs)
  show ?case
  proof (cases "y \<in> set xs")
    case True
    then show ?thesis using Cons.IH by simp
  next
    case False
    with Cons.prems have "x = y" by simp
    then have "P (f x st)" using assms(2) by simp
    then have "P (fold f xs (f x st))"
      by (rule fold_invariant) (use assms(1) in auto)
    then show ?thesis by simp
  qed
qed

lemma removedEdges_body_edges [simp]:
  "edges (removedEdges_body r c s) = edges s"
  by (simp add: removedEdges_body_def Let_def split: option.splits)

lemma removedEdges_body_preserves:
  "cleared a k s \<Longrightarrow> cleared a k (removedEdges_body r c s)"
proof -
  assume c: "cleared a k s"
  have d: "cleared a k (snd (deleteEdge i s))" for i
    using c by (simp add: cleared_def)
  show ?thesis
    unfolding removedEdges_body_def Let_def
    by (simp add: c d cleared_unlink_preserved split: option.splits)
qed

lemma removedEdges_body_clears:
  assumes "find (\<lambda>e. edge_id e = i) (edges r) = Some e"
    and "find (\<lambda>n. node_id n = source e) (nodes r) = Some sn"
    and "find (\<lambda>n. node_id n = target e) (nodes r) = Some tn"
    and "relationship_key sn (or_undefined (sourceHandle e)) = Some k"
  shows "cleared (source e) k (removedEdges_body r (EdgeRemove i) s)"
proof -
  from assms(2) have "node_id sn = source e" using find_SomeD by fastforce
  then show ?thesis
    using assms cleared_unlink[of sn "or_undefined (sourceHandle e)" k]
    by (simp add: removedEdges_body_def Let_def)
qed

lemma fold_removedEdges_body_edges [simp]:
  "edges (fold (removedEdges_body r) cs s) = edges s"
  by (induction cs arbitrary: s) simp_all

lemma connectedEdges_body_frame [simp]:
  "edges (connectedEdges_body r nodeId e s) = edges s"
  "selectedNode (connectedEdges_body r nodeId e s) = selectedNode s"
  by (simp_all add: connectedEdges_body_def Let_def split: option.splits)

lemma fold_connectedEdges_body_frame [simp]:
  "edges (fold (connectedEdges_body r nodeId) es s) = edges s"
  "selectedNode (fold (connectedEdges_body r nodeId) es s) = selectedNode s"
  by (induction es arbitrary: s) simp_all

lemma connectedEdges_body_preserves:
  "cleared a k s \<Longrightarrow> cleared a k (connectedEdges_body r nodeId e s)"
proof -
  assume c: "cleared a k s"
  have d: "cleared a k (snd (deleteEdge i s))" for i
    using c by (simp add: cleared_def)
  show ?thesis
    unfolding connectedEdges_body_def Let_def
    by (simp add: c d cleared_unlink_preserved split: option.splits)
qed

lemma connectedEdges_body_clears:
  assumes "target e = nodeId"
    and "find (\<lambda>n. node_id n = source e) (nodes r) = Some sn"
    and "relationship_key sn (or_undefined (sourceHandle e)) = Some k"
  shows "cleared (source e) k (connectedEdges_body r nodeId e s)"
proof -
  from assms(2) have "node_id sn = source e" using find_SomeD by fastforce
  then show ?thesis
    using assms cleared_unlink[of sn "or_undefined (sourceHandle e)" k]
    by (simp add: connectedEdges_body_def Let_def)
qed

lemma connectedEdges_body_ids [simp]:
  "map node_id (nodes (connectedEdges_body r nodeId e s)) = map node_id (nodes s)"
  by (simp add: connectedEdges_body_def Let_def o_def split: option.splits cong: if_cong)

lemma fold_connectedEdges_body_ids [simp]:
  "map node_id (nodes (fold (connectedEdges_body r nodeId) es s)) = map node_id (nodes s)"
  by (induction es arbitrary: s) simp_all

lemma deleteNode_local:
  "edges (snd (deleteNode r nodeId st)) =
     filter (\<lambda>e. source e \<noteq> nodeId \<and> target e \<noteq> nodeId) (edges r)"
  "map node_id (nodes (snd (deleteNode r nodeId st))) =
     filter (\<lambda>i. i \<noteq> nodeId) (map node_id (nodes r))"
  "selectedNode (snd (deleteNode r nodeId st)) =
     (if (case selectedNode r of None \<Rightarrow> False | Some sel \<Rightarrow> node_id sel = nodeId)
      then None else selectedNode st)"
  by (simp_all add: deleteNode_def Let_def filter_map o_def)

lemma deleteNode_clears:
  assumes "e \<in> set (edges r)" and "target e = nodeId"
    and "find (\<lambda>n. node_id n = source e) (nodes r) = Some sn"
    and "relationship_key sn (or_undefined (sourceHandle e)) = Some k"
  shows "cleared (source e) k (snd (deleteNode r nodeId st))"
proof -
  define ces where "ces = filter (\<lambda>e. source e = nodeId \<or> target e = nodeId) (edges r)"
  have mem: "e \<in> set ces" using assms(1,2) by (simp add: ces_def)
  have "cleared (source e) k (fold (connectedEdges_body r nodeId) ces s)" for s
  proof (rule fold_establish[where y = e, OF _ _ mem])
    show "\<And>x s. cleared (source e) k s \<Longrightarrow> cleared (source e) k (connectedEdges_body r nodeId x s)"
      by (rule connectedEdges_body_preserves)
    show "\<And>s. cleared (source e) k (connectedEdges_body r nodeId e s)"
      using assms(2-4) by (rule connectedEdges_body_clears)
  qed
  then show ?thesis
    by (simp add: deleteNode_def Let_def ces_def cleared_def)
qed

subsection \<open>Timer and batches\<close>

lemma update_node_position_frame [simp]:
  "nodes (snd (update_node_position i p st)) = nodes st"
  "edges (snd (update_node_position i p st)) = edges st"
  "batches (snd (update_node_position i p st)) = batches st"
  "now (snd (update_node_position i p st)) = now st"
  "positionUpdateTimeoutRef (snd (update_node_position i p st)) = positionUpdateTimeoutRef st"
  by (simp_all add: update_node_position_def respond_def split: option.splits)

lemma fold_update_node_position_frame [simp]:
  "nodes (fold (\<lambda>n s. snd (update_node_position (node_id n) (position n) s)) ns st) = nodes st"
  "edges (fold (\<lambda>n s. snd (update_node_position (node_id n) (position n) s)) ns st) = edges st"
  "batches (fold (\<lambda>n s. snd (update_node_position (node_id n) (position n) s)) ns st) = batches st"
  "now (fold (\<lambda>n s. snd (update_node_position (node_id n) (position n) s)) ns st) = now st"
  "positionUpdateTimeoutRef (fold (\<lambda>n s. snd (update_node_position (node_id n) (position n) s)) ns st)
     = positionUpdateTimeoutRef st"
  by (induction ns arbitrary: st) simp_all

lemma updateGraphData_frame [simp]:
  "nodes (updateGraphData ns es st) = nodes st"
  "edges (updateGraphData ns es st) = edges st"
  "batches (updateGraphData ns es st) = batches st @ [ns]"
  "now (updateGraphData ns es st) = now st"
  by (simp_all add: updateGraphData_def)

lemma position_event_filters:
  assumes "position_event changes"
  shows "filter node_change_is_remove changes = []"
    and "filter (\<lambda>c. \<not> node_change_is_remove c) changes = changes"
    and "0 < length (filter is_position_change changes)"
proof -
  from assms have a: "\<forall>c\<in>set changes. \<not> node_change_is_remove c"
    and b: "\<exists>c\<in>set changes. is_position_change c"
    by (simp_all add: position_event_def list_all_iff list_ex_iff)
  from a show "filter node_change_is_remove changes = []" by (simp add: filter_empty_conv)
  from a show "filter (\<lambda>c. \<not> node_change_is_remove c) changes = changes" by (simp add: filter_id_conv)
  from b show "0 < length (filter is_position_change changes)"
    by (simp add: length_greater_0_conv filter_empty_conv)
qed

lemma onNodesChangeCallback_position:
  assumes "position_event changes"
  shows "onNodesChangeCallback s changes s =
           s\<lparr>nodes := applyNodeChanges changes (nodes s),
             positionUpdateTimeoutRef :=
               Some (now s + 500, applyNodeChanges changes (nodes s), edges s)\<rparr>"
  using position_event_filters[OF assms]
  by (simp add: onNodesChangeCallback_def debouncedUpdatePositions_def Let_def)

lemma elapse_quiet:
  "positionUpdateTimeoutRef s = None \<Longrightarrow> elapse dt s = s\<lparr>now := now s + dt\<rparr>"
  by (simp add: elapse_def)

lemma elapse_pending:
  "positionUpdateTimeoutRef s = Some (now s + 500, ns, es) \<Longrightarrow> dt < 500 \<Longrightarrow>
   elapse dt s = s\<lparr>now := now s + dt\<rparr>"
  by (simp add: elapse_def)

lemma elapse_fires:
  assumes "positionUpdateTimeoutRef s = Some (now s + 500, ns, es)" and "500 \<le> dt"
  shows "batches (elapse dt s) = batches s @ [ns]"
    and "positionUpdateTimeoutRef (elapse dt s) = None"
    and "nodes (elapse dt s) = nodes s"
  using assms by (simp_all add: elapse_def timeout_callback_def)

lemma node_events_Cons:
  "node_events (ev # evs) s =
     node_events evs (onNodesChangeCallback (elapse (fst ev) s) (snd ev) (elapse (fst ev) s))"
  by (simp add: node_events_def Let_def)

lemma burst:
  assumes "\<forall>ev\<in>set evs. position_event (snd ev) \<and> fst ev < 500"
    and "positionUpdateTimeoutRef s = Some (now s + 500, nodes s, es0)"
  shows "batches (node_events evs s) = batches s
       \<and> (\<exists>es. positionUpdateTimeoutRef (node_events evs s)
                 = Some (now (node_events evs s) + 500, nodes (node_events evs s), es))
       \<and> nodes (node_events evs s) = fold (\<lambda>ev ns. applyNodeChanges (snd ev) ns) evs (nodes s)"
  using assms
proof (induction evs arbitrary: s es0)
  case Nil
  then show ?case by (simp add: node_events_def)
next
  case (Cons ev evs)
  let ?s1 = "elapse (fst ev) s"
  let ?s2 = "onNodesChangeCallback ?s1 (snd ev) ?s1"
  from Cons.prems have pe: "position_event (snd ev)" and dt: "fst ev < 500" by simp_all
  have s1: "?s1 = s\<lparr>now := now s + fst ev\<rparr>"
    using elapse_pending[OF Cons.prems(2) dt] .
  have s2: "?s2 = ?s1\<lparr>nodes := applyNodeChanges (snd ev) (nodes ?s1),
             positionUpdateTimeoutRef :=
               Some (now ?s1 + 500, applyNodeChanges (snd ev) (nodes ?s1), edges ?s1)\<rparr>"
    using onNodesChangeCallback_position[OF pe] .
  have ref: "positionUpdateTimeoutRef ?s2 = Some (now ?s2 + 500, nodes ?s2, edges ?s1)"
    by (subst (1 2 3) s2) simp
  have b: "batches ?s2 = batches s" by (subst s2, subst s1) simp
  have n: "nodes ?s2 = applyNodeChanges (snd ev) (nodes s)" by (subst s2, subst (1 2) s1) simp
  from Cons.prems have rest: "\<forall>ev\<in>set evs. position_event (snd ev) \<and> fst ev < 500" by simp
  from Cons.IH[OF rest ref] obtain es where
    i1: "batches (node_events evs ?s2) = batches ?s2"
    and i2: "positionUpdateTimeoutRef (node_events evs ?s2)
               = Some (now (node_events evs ?s2) + 500, nodes (node_events evs ?s2), es)"
    and i3: "nodes (node_events evs ?s2) = fold (\<lambda>ev ns. applyNodeChanges (snd ev) ns) evs (nodes ?s2)"
    by blast
  show ?case
    unfolding node_events_Cons
  proof (intro conjI exI)
    show "batches (node_events evs ?s2) = batches s" by (simp only: i1 b)
    show "positionUpdateTimeoutRef (node_events evs ?s2)
               = Some (now (node_events evs ?s2) + 500, nodes (node_events evs ?s2), es)"
      by (rule i2)
    show "nodes (node_events evs ?s2)
            = fold (\<lambda>ev ns. applyNodeChanges (snd ev) ns) (ev # evs) (nodes s)"
      by (simp only: i3 n fold_simps o_apply)
  qed
qed

subsection \<open>Position writes in the store\<close>

text \<open>
  A batch makes one request per node of its list, in order. A request that succeeds writes
  the node's position into the two position columns of the node's row and leaves every
  other row alone.
\<close>

lemma update_node_position_responses [simp]:
  "responses (snd (update_node_position i p s)) = tl (responses s)"
  by (simp add: update_node_position_def respond_def split: option.splits)

lemma update_node_position_other:
  "j \<noteq> i \<Longrightarrow> db_nodes (snd (update_node_position i p s)) j = db_nodes s j"
  by (simp add: update_node_position_def respond_def split: option.splits list.splits)

lemma update_node_position_written:
  assumes "responses s = Some a # rest" and "db_nodes s i = Some row"
  shows "db_nodes (snd (update_node_position i p s)) i
           = Some (row\<lparr>position_x := fst p, position_y := snd p\<rparr>)"
  using assms by (simp add: update_node_position_def respond_def)

lemma fold_update_node_position_responses:
  "responses (fold (\<lambda>n s. snd (update_node_position (node_id n) (position n) s)) ns s)
     = drop (length ns) (responses s)"
  by (induction ns arbitrary: s) (simp_all add: drop_Suc tl_drop)

lemma fold_update_node_position_other:
  "j \<notin> node_id ` set ns \<Longrightarrow>
   db_nodes (fold (\<lambda>n s. snd (update_node_position (node_id n) (position n) s)) ns s) j
     = db_nodes s j"
  by (induction ns arbitrary: s) (simp_all add: update_node_position_other)

lemma fold_update_node_position_written:
  assumes "distinct (map node_id ns)"
    and "i < length ns"
    and "i < length (responses s)"
    and "responses s ! i \<noteq> None"
    and "db_nodes s (node_id (ns ! i)) = Some row"
  shows "db_nodes (fold (\<lambda>n s. snd (update_node_position (node_id n) (position n) s)) ns s)
           (node_id (ns ! i))
         = Some (row\<lparr>position_x := fst (position (ns ! i)), position_y := snd (position (ns ! i))\<rparr>)"
  using assms
proof (induction ns arbitrary: s i)
  case Nil
  then show ?case by simp
next
  case (Cons n ns)
  let ?s1 = "snd (update_node_position (node_id n) (position n) s)"
  show ?case
  proof (cases i)
    case 0
    from Cons.prems(3,4) 0 obtain a rest where r: "responses s = Some a # rest"
      by (cases "responses s") auto
    from Cons.prems(5) 0 have row: "db_nodes s (node_id n) = Some row" by simp
    from Cons.prems(1) have notin: "node_id n \<notin> node_id ` set ns" by simp
    have "db_nodes (fold (\<lambda>n s. snd (update_node_position (node_id n) (position n) s)) ns ?s1)
            (node_id n) = db_nodes ?s1 (node_id n)"
      using notin by (rule fold_update_node_position_other)
    also have "\<dots> = Some (row\<lparr>position_x := fst (position n), position_y := snd (position n)\<rparr>)"
      using r row by (rule update_node_position_written)
    finally show ?thesis using 0 by simp
  next
    case (Suc k)
    from Cons.prems(1) Cons.prems(2) Suc have ne: "node_id (ns ! k) \<noteq> node_id n"
      by (metis Suc_less_eq distinct.simps(2) length_Cons list.simps(9) nth_map nth_mem length_map)
    have d: "distinct (map node_id ns)" using Cons.prems(1) by simp
    have k: "k < length ns" using Cons.prems(2) Suc by simp
    have kr: "k < length (responses ?s1)" using Cons.prems(3) Suc by simp
    have ok: "responses ?s1 ! k \<noteq> None"
      using Cons.prems(3,4) Suc by (simp add: nth_tl)
    have row: "db_nodes ?s1 (node_id (ns ! k)) = Some row"
      using Cons.prems(5) Suc ne by (simp add: update_node_position_other)
    from Cons.IH[OF d k kr ok row] show ?thesis using Suc by simp
  qed
qed

lemma updateGraphData_store:
  "responses (updateGraphData ns es s) = drop (length ns) (responses s)"
  "j \<notin> node_id ` set ns \<Longrightarrow> db_nodes (updateGraphData ns es s) j = db_nodes s j"
  by (simp_all add: updateGraphData_def fold_update_node_position_responses
        fold_update_node_position_other)

lemma updateGraphData_written:
  assumes "distinct (map node_id ns)"
    and "i < length ns"
    and "i < length (responses s)"
    and "responses s ! i \<noteq> None"
    and "db_nodes s (node_id (ns ! i)) = Some row"
  shows "db_nodes (updateGraphData ns es s) (node_id (ns ! i))
         = Some (row\<lparr>position_x := fst (position (ns ! i)), position_y := snd (position (ns ! i))\<rparr>)"
  unfolding updateGraphData_def
  by (rule fold_update_node_position_written) (use assms in simp_all)

lemma applyNodeChanges_ids:
  "list_all (\<lambda>c. \<not> node_change_is_remove c) changes \<Longrightarrow>
   map node_id (applyNodeChanges changes ns) = map node_id ns"
proof -
  assume a: "list_all (\<lambda>c. \<not> node_change_is_remove c) changes"
  have keep: "filter (\<lambda>n. NodeRemove (node_id n) \<notin> set changes) ns = ns"
    using a by (auto simp: list_all_iff filter_id_conv)
  have id1: "node_id (applyChange c n) = node_id n" for c n
    by (cases "(c, n)" rule: applyChange.cases) auto
  have id: "node_id (fold applyChange cs n) = node_id n" for cs n
    by (induction cs arbitrary: n) (simp_all add: id1)
  show ?thesis by (simp add: applyNodeChanges_def keep id)
qed

lemma elapse_fires_store:
  assumes "positionUpdateTimeoutRef s = Some (now s + 500, ns, es)" and "500 \<le> dt"
  shows "responses (elapse dt s) = drop (length ns) (responses s)"
    and "j \<notin> node_id ` set ns \<Longrightarrow> db_nodes (elapse dt s) j = db_nodes s j"
    and "distinct (map node_id ns) \<Longrightarrow> i < length ns \<Longrightarrow> i < length (responses s) \<Longrightarrow>
         responses s ! i \<noteq> None \<Longrightarrow> db_nodes s (node_id (ns ! i)) = Some row \<Longrightarrow>
         db_nodes (elapse dt s) (node_id (ns ! i))
           = Some (row\<lparr>position_x := fst (position (ns ! i)),
                       position_y := snd (position (ns ! i))\<rparr>)"
proof -
  have e: "elapse dt s =
      (updateGraphData ns es (s\<lparr>now := now s + 500\<rparr>))
        \<lparr>positionUpdateTimeoutRef := None, now := now s + dt\<rparr>"
    using assms by (simp add: elapse_def timeout_callback_def)
  show "responses (elapse dt s) = drop (length ns) (responses s)"
    by (simp add: e updateGraphData_store(1))
  show "j \<notin> node_id ` set ns \<Longrightarrow> db_nodes (elapse dt s) j = db_nodes s j"
    by (simp add: e updateGraphData_store(2))
  show "distinct (map node_id ns) \<Longrightarrow> i < length ns \<Longrightarrow> i < length (responses s) \<Longrightarrow>
         responses s ! i \<noteq> None \<Longrightarrow> db_nodes s (node_id (ns ! i)) = Some row \<Longrightarrow>
         db_nodes (elapse dt s) (node_id (ns ! i))
           = Some (row\<lparr>position_x := fst (position (ns ! i)),
                       position_y := snd (position (ns ! i))\<rparr>)"
    using updateGraphData_written[of ns i "s\<lparr>now := now s + 500\<rparr>" row es]
    by (simp add: e)
qed

lemma burst_store:
  assumes "\<forall>ev\<in>set evs. position_event (snd ev) \<and> fst ev < 500"
    and "positionUpdateTimeoutRef s = Some (now s + 500, nodes s, es0)"
  shows "db_nodes (node_events evs s) = db_nodes s
       \<and> responses (node_events evs s) = responses s
       \<and> map node_id (nodes (node_events evs s)) = map node_id (nodes s)"
  using assms
proof (induction evs arbitrary: s es0)
  case Nil
  then show ?case by (simp add: node_events_def)
next
  case (Cons ev evs)
  let ?s1 = "elapse (fst ev) s"
  let ?s2 = "onNodesChangeCallback ?s1 (snd ev) ?s1"
  from Cons.prems have pe: "position_event (snd ev)" and dt: "fst ev < 500" by simp_all
  have s1: "?s1 = s\<lparr>now := now s + fst ev\<rparr>"
    using elapse_pending[OF Cons.prems(2) dt] .
  have s2: "?s2 = ?s1\<lparr>nodes := applyNodeChanges (snd ev) (nodes ?s1),
             positionUpdateTimeoutRef :=
               Some (now ?s1 + 500, applyNodeChanges (snd ev) (nodes ?s1), edges ?s1)\<rparr>"
    using onNodesChangeCallback_position[OF pe] .
  have ref: "positionUpdateTimeoutRef ?s2 = Some (now ?s2 + 500, nodes ?s2, edges ?s1)"
    by (subst (1 2 3) s2) simp
  have d: "db_nodes ?s2 = db_nodes s" by (subst s2, subst s1) simp
  have r: "responses ?s2 = responses s" by (subst s2, subst s1) simp
  have n: "nodes ?s2 = applyNodeChanges (snd ev) (nodes s)" by (subst s2, subst (1 2) s1) simp
  have ids: "map node_id (nodes ?s2) = map node_id (nodes s)"
    using pe by (simp only: n) (simp add: applyNodeChanges_ids position_event_def)
  from Cons.prems have rest: "\<forall>ev\<in>set evs. position_event (snd ev) \<and> fst ev < 500" by simp
  from Cons.IH[OF rest ref] have
    i1: "db_nodes (node_events evs ?s2) = db_nodes ?s2"
    and i2: "responses (node_events evs ?s2) = responses ?s2"
    and i3: "map node_id (nodes (node_events evs ?s2)) = map node_id (nodes ?s2)"
    by blast+
  show ?case
    unfolding node_events_Cons
  proof (intro conjI)
    show "db_nodes (node_events evs ?s2) = db_nodes s" by (simp only: i1 d)
    show "responses (node_events evs ?s2) = responses s" by (simp only: i2 r)
    show "map node_id (nodes (node_events evs ?s2)) = map node_id (nodes s)" by (simp only: i3 ids)
  qed
qed

section \<open>Evaluation of the examples\<close>

lemmas example_defs =
  mk_node_def mk_edge_def mk_state_def graph_ABC_def connect_AB_AC_def graph_DEF_def
  connect_DE_DF_def graph_AB_def graph_AB_add_def graph_AB_offline_def graph_AB_online_def
  graph_DE_add_def drag_A_def row_foo_def row_untyped_def graph_ABC_e1_def

lemmas callback_defs =
  respond_def select_node_def update_node_data_def update_node_position_def insert_node_def
  delete_node_def insert_edge_def delete_edge_def updateNodeData_def createEdge_def
  deleteEdge_def updateNodeRelationships_def onConnect_def connects_def handleAddNode_def
  removedEdges_body_def onEdgesChangeCallback_def connectedEdges_body_def deleteNode_def
  applyEdgeChanges_def applyNodeChanges_def onNodesChangeCallback_def
  debouncedUpdatePositions_def updateGraphData_def timeout_callback_def elapse_def
  node_events_def truthy_handle_def or_undefined_def Let_def

lemmas property_defs =
  outgoing_def outgoing_on_def mirrors_def cleared_def node_of_type_def absent_def js_get_def
  relationship_key_def stored_payload_def position_event_def

section \<open>The claims\<close>

subsection \<open>C1: an analysis node keeps a single child\<close>

text \<open>
  Claim C1. Take a view in which the node \<open>a\<close> has type \<^verbatim>\<open>analysis\<close>, has at most one
  outgoing edge, and whose \<^verbatim>\<open>childId\<close> mirrors that edge. Apply any sequence of connect
  operations whose source is \<open>a\<close>, each on the render that follows the one before, with
  any outcomes of the remote requests. After each operation (after every prefix of the
  sequence) the local edge list holds at most one edge whose source is \<open>a\<close>, and the
  \<^verbatim>\<open>childId\<close> field of \<open>a\<close> is the target of that edge, or is absent when there is none.
\<close>

theorem analysis_single_child:
  assumes "node_of_type a ''analysis'' st"
    and "mirrors a ''childId'' (outgoing a st) st"
    and "\<forall>p\<in>set ps. params_source p = a"
    and "k \<le> length ps"
  shows "length (outgoing a (connects (take k ps) st)) \<le> 1
       \<and> mirrors a ''childId'' (outgoing a (connects (take k ps) st)) (connects (take k ps) st)"
proof -
  let ?P = "\<lambda>s. node_of_type a ''analysis'' s \<and> mirrors a ''childId'' (outgoing a s) s"
  have "?P (connects (take k ps) st)"
    unfolding connects_def
  proof (rule fold_invariant[where P = ?P])
    show "?P st" using assms by simp
  next
    fix s x assume "?P s" "x \<in> set (take k ps)"
    then have "params_source x = a" using assms(3) by (meson in_set_takeD)
    with \<open>?P s\<close> show "?P (onConnect s x s)" using analysis_step by blast
  qed
  then show ?thesis using mirrors_length by blast
qed

text \<open>
  The scenario of the specification: connect A to B, then A to C. Only the edge from A
  to C remains, and the \<^verbatim>\<open>childId\<close> of A is C.
\<close>

theorem analysis_single_child_witness:
  "node_of_type ''A'' ''analysis'' graph_ABC
   \<and> mirrors ''A'' ''childId'' (outgoing ''A'' graph_ABC) graph_ABC
   \<and> length (outgoing ''A'' (connects (take 2 connect_AB_AC) graph_ABC)) \<le> 1
   \<and> mirrors ''A'' ''childId'' (outgoing ''A'' (connects (take 2 connect_AB_AC) graph_ABC))
        (connects (take 2 connect_AB_AC) graph_ABC)
   \<and> map target (edges (connects connect_AB_AC graph_ABC)) = [''C'']"
proof -
  have h1: "node_of_type ''A'' ''analysis'' graph_ABC"
    by (simp add: node_of_type_def example_defs)
  have h2: "mirrors ''A'' ''childId'' (outgoing ''A'' graph_ABC) graph_ABC"
    by (simp add: property_defs example_defs)
  have h3: "\<forall>p\<in>set connect_AB_AC. params_source p = ''A''"
    by (simp add: connect_AB_AC_def)
  have h4: "2 \<le> length connect_AB_AC"
    by (simp add: connect_AB_AC_def)
  have run: "map target (edges (connects connect_AB_AC graph_ABC)) = [''C'']"
    by (simp add: example_defs callback_defs)
  from analysis_single_child[OF h1 h2 h3 h4] h1 h2 run show ?thesis by simp
qed

subsection \<open>C2: a conditional node keeps a single child per handle\<close>

text \<open>
  Claim C2. Take a view in which the node \<open>d\<close> has type \<^verbatim>\<open>conditional\<close>, has at most
  one outgoing edge on each of the handles \<^verbatim>\<open>true\<close> and \<^verbatim>\<open>false\<close>, and whose
  \<^verbatim>\<open>trueChildId\<close> and \<^verbatim>\<open>falseChildId\<close> mirror those edges. Apply any sequence of connect
  operations whose source is \<open>d\<close> and whose handle is \<^verbatim>\<open>true\<close> or \<^verbatim>\<open>false\<close>. After
  each operation the local edge list holds at most one edge of \<open>d\<close> per handle, and each
  of the two fields is the target of the edge on its handle, or is absent when there is
  none.
\<close>

theorem conditional_single_child_per_handle:
  assumes "node_of_type d ''conditional'' st"
    and "mirrors d ''trueChildId'' (outgoing_on d ''true'' st) st"
    and "mirrors d ''falseChildId'' (outgoing_on d ''false'' st) st"
    and "\<forall>p\<in>set ps. params_source p = d
           \<and> (params_sourceHandle p = Some ''true'' \<or> params_sourceHandle p = Some ''false'')"
    and "k \<le> length ps"
  shows "length (outgoing_on d ''true'' (connects (take k ps) st)) \<le> 1
       \<and> length (outgoing_on d ''false'' (connects (take k ps) st)) \<le> 1
       \<and> mirrors d ''trueChildId'' (outgoing_on d ''true'' (connects (take k ps) st))
            (connects (take k ps) st)
       \<and> mirrors d ''falseChildId'' (outgoing_on d ''false'' (connects (take k ps) st))
            (connects (take k ps) st)"
proof -
  let ?P = "\<lambda>s. node_of_type d ''conditional'' s
              \<and> mirrors d ''trueChildId'' (outgoing_on d ''true'' s) s
              \<and> mirrors d ''falseChildId'' (outgoing_on d ''false'' s) s"
  have "?P (connects (take k ps) st)"
    unfolding connects_def
  proof (rule fold_invariant[where P = ?P])
    show "?P st" using assms by simp
  next
    fix s x assume P: "?P s" and "x \<in> set (take k ps)"
    then have "x \<in> set ps" by (meson in_set_takeD)
    then have "params_source x = d"
      "params_sourceHandle x = Some ''true'' \<or> params_sourceHandle x = Some ''false''"
      using assms(4) by auto
    with P show "?P (onConnect s x s)" using conditional_step by blast
  qed
  then show ?thesis using mirrors_length by blast
qed

text \<open>
  The scenario of the specification: connect D to E on \<^verbatim>\<open>true\<close>, then D to F on
  \<^verbatim>\<open>true\<close>. Only the edge to F remains, and no edge is on \<^verbatim>\<open>false\<close>.
\<close>

theorem conditional_single_child_per_handle_witness:
  "node_of_type ''D'' ''conditional'' graph_DEF
   \<and> length (outgoing_on ''D'' ''true'' (connects (take 2 connect_DE_DF) graph_DEF)) \<le> 1
   \<and> length (outgoing_on ''D'' ''false'' (connects (take 2 connect_DE_DF) graph_DEF)) \<le> 1
   \<and> mirrors ''D'' ''trueChildId'' (outgoing_on ''D'' ''true'' (connects (take 2 connect_DE_DF) graph_DEF))
        (connects (take 2 connect_DE_DF) graph_DEF)
   \<and> mirrors ''D'' ''falseChildId'' (outgoing_on ''D'' ''false'' (connects (take 2 connect_DE_DF) graph_DEF))
        (connects (take 2 connect_DE_DF) graph_DEF)
   \<and> map (\<lambda>e. (target e, sourceHandle e)) (edges (connects connect_DE_DF graph_DEF))
        = [(''F'', Some ''true'')]"
proof -
  have h1: "node_of_type ''D'' ''conditional'' graph_DEF"
    by (simp add: node_of_type_def example_defs)
  have h2: "mirrors ''D'' ''trueChildId'' (outgoing_on ''D'' ''true'' graph_DEF) graph_DEF"
    by (simp add: property_defs example_defs)
  have h3: "mirrors ''D'' ''falseChildId'' (outgoing_on ''D'' ''false'' graph_DEF) graph_DEF"
    by (simp add: property_defs example_defs)
  have h4: "\<forall>p\<in>set connect_DE_DF. params_source p = ''D''
              \<and> (params_sourceHandle p = Some ''true'' \<or> params_sourceHandle p = Some ''false'')"
    by (simp add: connect_DE_DF_def)
  have h5: "2 \<le> length connect_DE_DF"
    by (simp add: connect_DE_DF_def)
  have run: "map (\<lambda>e. (target e, sourceHandle e)) (edges (connects connect_DE_DF graph_DEF))
        = [(''F'', Some ''true'')]"
    by (simp add: example_defs callback_defs)
  from conditional_single_child_per_handle[OF h1 h2 h3 h4 h5] h1 run show ?thesis by simp
qed

subsection \<open>C3: adding a node below a selected analysis node\<close>

text \<open>
  Claim C3 says that \<^verbatim>\<open>handleAddNode\<close>, with an \<^verbatim>\<open>analysis\<close> node selected that
  already has an outgoing edge, deletes that edge when it creates the edge to the new node.
  The source does not: \<^verbatim>\<open>handleAddNode\<close> appends the new edge and never calls
  \<^verbatim>\<open>deleteEdge\<close>, where \<^verbatim>\<open>onConnect\<close> deletes and filters. With A selected, its edge e1
  to B in place, and both inserts successful, A ends with two outgoing edges while its
  \<^verbatim>\<open>childId\<close> names only the new node; the same connection made through \<^verbatim>\<open>onConnect\<close>
  leaves one edge.
\<close>

theorem handleAddNode_analysis_keeps_old_edge:
  "map (\<lambda>e. (edge_id e, source e, target e))
       (outgoing ''A'' (handleAddNode graph_AB_add ''prompt'' ''N'' graph_AB_add))
     = [(''e1'', ''A'', ''B''), (''e2'', ''A'', ''N'')]
   \<and> map (\<lambda>n. (node_id n, js_get (node_data n) ''childId''))
       (nodes (handleAddNode graph_AB_add ''prompt'' ''N'' graph_AB_add))
     = [(''A'', JStr ''N''), (''B'', JUndefined), (''N'', JUndefined)]
   \<and> map (\<lambda>e. (source e, target e))
       (outgoing ''A'' (onConnect graph_AB_add
          \<lparr>params_source = ''A'', params_target = ''B'', params_sourceHandle = None\<rparr> graph_AB_add))
     = [(''A'', ''B'')]"
  by (simp add: example_defs callback_defs outgoing_def js_get_def)

subsection \<open>C4: removing an edge\<close>

text \<open>
  Claim C4 says that the relationship field of the source node is cleared only when the
  remote delete of the edge succeeds. The source does not read the result of
  \<^verbatim>\<open>deleteEdge\<close>: below, the remote delete of e1 fails (the row stays in the store),
  and the \<^verbatim>\<open>childId\<close> of A, which named B, is cleared all the same.
\<close>

theorem edge_removal_counterexample:
  "\<not> fst (deleteEdge ''e1'' graph_AB_offline)
   \<and> db_edges (onEdgesChangeCallback graph_AB_offline [EdgeRemove ''e1''] graph_AB_offline) ''e1''
       = Some \<lparr>source_node_id = ''A'', target_node_id = ''B''\<rparr>
   \<and> map (\<lambda>n. (node_id n, js_get (node_data n) ''childId'')) (nodes graph_AB_offline)
       = [(''A'', JStr ''B''), (''B'', JUndefined)]
   \<and> map (\<lambda>n. (node_id n, js_get (node_data n) ''childId''))
         (nodes (onEdgesChangeCallback graph_AB_offline [EdgeRemove ''e1''] graph_AB_offline))
       = [(''A'', JUndefined), (''B'', JUndefined)]
   \<and> edges (onEdgesChangeCallback graph_AB_offline [EdgeRemove ''e1''] graph_AB_offline) = []"
  by (simp add: example_defs callback_defs js_get_def)

text \<open>
  Claim C4, amended. For every removal change processed by the edges-change callback
  whose edge is in the rendered edge list and whose two end nodes are in the rendered node
  list, the relationship field selected by the source node's type and the edge's handle
  (\<^verbatim>\<open>childId\<close>, \<^verbatim>\<open>trueChildId\<close> or \<^verbatim>\<open>falseChildId\<close>) is cleared on the source node,
  and the edge leaves the local edge list, whatever the outcomes of the remote requests
  are: the state, and with it the list of outcomes, is arbitrary.
\<close>

theorem edge_removal_clears_regardless:
  assumes "EdgeRemove i \<in> set changes"
    and "find (\<lambda>e. edge_id e = i) (edges st) = Some e"
    and "find (\<lambda>n. node_id n = source e) (nodes st) = Some sn"
    and "find (\<lambda>n. node_id n = target e) (nodes st) = Some tn"
    and "relationship_key sn (or_undefined (sourceHandle e)) = Some k"
  shows "edges (onEdgesChangeCallback st changes st) = applyEdgeChanges changes (edges st)
       \<and> e \<notin> set (edges (onEdgesChangeCallback st changes st))
       \<and> cleared (source e) k (onEdgesChangeCallback st changes st)"
proof -
  have ed: "edges (onEdgesChangeCallback st changes st) = applyEdgeChanges changes (edges st)"
    by (simp add: onEdgesChangeCallback_def Let_def)
  from assms(2) have "edge_id e = i" using find_SomeD by fastforce
  then have gone: "e \<notin> set (edges (onEdgesChangeCallback st changes st))"
    using assms(1) by (simp add: ed applyEdgeChanges_def)
  have mem: "EdgeRemove i \<in> set (filter edge_change_is_remove changes)"
    using assms(1) by simp
  have "cleared (source e) k (onEdgesChangeCallback st changes st)"
    unfolding onEdgesChangeCallback_def Let_def
  proof (rule fold_establish[where y = "EdgeRemove i", OF _ _ mem])
    show "\<And>x s. cleared (source e) k s \<Longrightarrow> cleared (source e) k (removedEdges_body st x s)"
      by (rule removedEdges_body_preserves)
    show "\<And>s. cleared (source e) k (removedEdges_body st (EdgeRemove i) s)"
      using assms(2-5) by (rule removedEdges_body_clears)
  qed
  with ed gone show ?thesis by simp
qed

theorem edge_removal_clears_regardless_witness:
  "edges (onEdgesChangeCallback graph_AB_offline [EdgeRemove ''e1''] graph_AB_offline)
     = applyEdgeChanges [EdgeRemove ''e1''] (edges graph_AB_offline)
   \<and> mk_edge ''e1'' ''A'' ''B'' None
       \<notin> set (edges (onEdgesChangeCallback graph_AB_offline [EdgeRemove ''e1''] graph_AB_offline))
   \<and> cleared ''A'' ''childId''
       (onEdgesChangeCallback graph_AB_offline [EdgeRemove ''e1''] graph_AB_offline)"
proof -
  have h1: "EdgeRemove ''e1'' \<in> set [EdgeRemove ''e1'']" by simp
  have h2: "find (\<lambda>e. edge_id e = ''e1'') (edges graph_AB_offline)
              = Some (mk_edge ''e1'' ''A'' ''B'' None)"
    by (simp add: example_defs)
  have h3: "find (\<lambda>n. node_id n = source (mk_edge ''e1'' ''A'' ''B'' None)) (nodes graph_AB_offline)
              = Some (mk_node ''A'' ''analysis'' [''childId'' \<mapsto> JStr ''B''])"
    by (simp add: example_defs)
  have h4: "find (\<lambda>n. node_id n = target (mk_edge ''e1'' ''A'' ''B'' None)) (nodes graph_AB_offline)
              = Some (mk_node ''B'' ''prompt'' Map.empty)"
    by (simp add: example_defs)
  have h5: "relationship_key (mk_node ''A'' ''analysis'' [''childId'' \<mapsto> JStr ''B''])
              (or_undefined (sourceHandle (mk_edge ''e1'' ''A'' ''B'' None))) = Some ''childId''"
    by (simp add: relationship_key_def mk_node_def)
  have src: "source (mk_edge ''e1'' ''A'' ''B'' None) = ''A''"
    by (simp add: mk_edge_def)
  from edge_removal_clears_regardless[OF h1 h2 h3 h4 h5] show ?thesis
    unfolding src .
qed

subsection \<open>C5: connecting from a prompt node\<close>

text \<open>
  Claim C5. When the source node of a proposed connection has type \<^verbatim>\<open>prompt\<close>, the
  connect operation returns the state it was given: no remote request is made (no outcome
  is consumed and both remote relations are as before), no edge is added or removed
  locally, and no node payload changes.
\<close>

theorem connect_from_prompt_noop:
  assumes "find (\<lambda>n. node_id n = params_source p) (nodes r) = Some sourceNode"
    and "node_type sourceNode = JStr ''prompt''"
  shows "onConnect r p st = st"
  using assms by (simp add: onConnect_def split: option.splits)

theorem connect_from_prompt_noop_witness:
  "onConnect graph_ABC
     \<lparr>params_source = ''B'', params_target = ''C'', params_sourceHandle = None\<rparr> graph_ABC
   = graph_ABC"
proof -
  have h1: "find (\<lambda>n. node_id n = params_source
                \<lparr>params_source = ''B'', params_target = ''C'', params_sourceHandle = None\<rparr>)
              (nodes graph_ABC) = Some (mk_node ''B'' ''prompt'' Map.empty)"
    by (simp add: example_defs)
  have h2: "node_type (mk_node ''B'' ''prompt'' Map.empty) = JStr ''prompt''"
    by (simp add: mk_node_def)
  from connect_from_prompt_noop[OF h1 h2] show ?thesis .
qed

subsection \<open>C6: deleting a node\<close>

text \<open>
  Taken alone, \<^verbatim>\<open>deleteNode\<close> does to the local view what the claim says, for the
  lists of its render (lemmas \<open>deleteNode_local\<close> and \<open>deleteNode_clears\<close>). Its only
  caller is \<^verbatim>\<open>onNodesChangeCallback\<close>, which runs every deletion of one event on the
  same render and then sets the node list to the list of that render with the other
  changes applied.
\<close>

lemma onNodesChangeCallback_nodes:
  "nodes (onNodesChangeCallback r changes st) =
     applyNodeChanges (filter (\<lambda>c. \<not> node_change_is_remove c) changes) (nodes r)"
  by (simp add: onNodesChangeCallback_def debouncedUpdatePositions_def Let_def)

text \<open>
  Claim C6 says that a node deletion through \<^verbatim>\<open>deleteNode\<close> removes from the local
  view exactly the edges that touch the deleted node, leaves the other nodes and edges
  as they are, and clears the relationship field of the source node of every removed edge
  that led to the deleted node. The source misses this in the removal event that calls
  \<^verbatim>\<open>deleteNode\<close>. Below, A has the child B through the edge e1. \<^verbatim>\<open>deleteNode\<close> alone
  leaves A with \<^verbatim>\<open>childId\<close> cleared. After the removal event for B, with every remote
  request successful, the store has lost the row of B and the stored \<^verbatim>\<open>childId\<close> of A,
  and the local edge is gone, but the local node list holds B again and the local
  \<^verbatim>\<open>childId\<close> of A still names B. After one event that removes B and then C, the
  local edge list holds e1 again, an edge that touches the deleted B and that the store
  no longer has.
\<close>

theorem onNodesChangeCallback_undoes_deleteNode:
  "map (\<lambda>n. (node_id n, js_get (node_data n) ''childId''))
       (nodes (snd (deleteNode graph_AB_online ''B'' graph_AB_online)))
     = [(''A'', JUndefined)]
   \<and> map (\<lambda>n. (node_id n, js_get (node_data n) ''childId''))
       (nodes (onNodesChangeCallback graph_AB_online [NodeRemove ''B''] graph_AB_online))
     = [(''A'', JStr ''B''), (''B'', JUndefined)]
   \<and> edges (onNodesChangeCallback graph_AB_online [NodeRemove ''B''] graph_AB_online) = []
   \<and> db_nodes (onNodesChangeCallback graph_AB_online [NodeRemove ''B''] graph_AB_online) ''B''
       = None
   \<and> map_option (\<lambda>row. js_get (stored_payload row) ''childId'')
       (db_nodes (onNodesChangeCallback graph_AB_online [NodeRemove ''B''] graph_AB_online) ''A'')
       = Some JUndefined
   \<and> map (\<lambda>e. (edge_id e, source e, target e))
       (edges (onNodesChangeCallback graph_ABC_e1 [NodeRemove ''B'', NodeRemove ''C'']
                 graph_ABC_e1))
       = [(''e1'', ''A'', ''B'')]
   \<and> db_edges (onNodesChangeCallback graph_ABC_e1 [NodeRemove ''B'', NodeRemove ''C'']
                 graph_ABC_e1) ''e1''
       = None"
  by (simp add: example_defs callback_defs js_get_def stored_payload_def)

subsection \<open>C7: debounced position writes\<close>

text \<open>
  Claim C7. Time is counted in milliseconds; a pending timeout runs when its 500 ms have
  passed without a new position change having replaced it. Start with no timeout pending
  and take a non-empty sequence of drag events (each carries a position change and removes
  nothing) in which every event after the first comes less than 500 ms after the one
  before. Then:
  \<^item> while the events arrive no batch is started, no remote request is made and the store
    is as before;
  \<^item> the in-memory node list after the events is the former one with the changes of every
    event applied in order;
  \<^item> once 500 ms or more have passed after the last event, exactly one batch has been
    started, for the node list of the last event, and no timeout is pending;
  \<^item> that batch has made exactly one request per node of that list, and has left the rows
    of all other nodes as they were;
  \<^item> when the node ids are distinct, every node of that list whose request succeeded and
    which has a row in the store has, in that row, the position it had after the last
    event.
\<close>

theorem debounced_single_batch:
  assumes "positionUpdateTimeoutRef st = None"
    and "evs \<noteq> []"
    and "\<forall>ev\<in>set evs. position_event (snd ev)"
    and "\<forall>ev\<in>set (tl evs). fst ev < 500"
    and "500 \<le> quiet"
  shows "batches (node_events evs st) = batches st
       \<and> batches (elapse quiet (node_events evs st)) = batches st @ [nodes (node_events evs st)]
       \<and> positionUpdateTimeoutRef (elapse quiet (node_events evs st)) = None
       \<and> nodes (node_events evs st) = fold (\<lambda>ev ns. applyNodeChanges (snd ev) ns) evs (nodes st)
       \<and> db_nodes (node_events evs st) = db_nodes st
       \<and> responses (node_events evs st) = responses st
       \<and> responses (elapse quiet (node_events evs st))
           = drop (length (nodes (node_events evs st))) (responses st)
       \<and> (\<forall>j. j \<notin> node_id ` set (nodes (node_events evs st)) \<longrightarrow>
             db_nodes (elapse quiet (node_events evs st)) j = db_nodes st j)
       \<and> (distinct (map node_id (nodes st)) \<longrightarrow>
           (\<forall>i row. i < length (nodes (node_events evs st)) \<and> i < length (responses st)
                    \<and> responses st ! i \<noteq> None
                    \<and> db_nodes st (node_id (nodes (node_events evs st) ! i)) = Some row \<longrightarrow>
              db_nodes (elapse quiet (node_events evs st)) (node_id (nodes (node_events evs st) ! i))
                = Some (row\<lparr>position_x := fst (position (nodes (node_events evs st) ! i)),
                            position_y := snd (position (nodes (node_events evs st) ! i))\<rparr>)))"
proof -
  from assms(2) obtain ev rest where evs: "evs = ev # rest" by (cases evs) auto
  let ?s1 = "elapse (fst ev) st"
  let ?s2 = "onNodesChangeCallback ?s1 (snd ev) ?s1"
  let ?s' = "node_events rest ?s2"
  from assms(3) evs have pe: "position_event (snd ev)" by simp
  have s1: "?s1 = st\<lparr>now := now st + fst ev\<rparr>"
    using elapse_quiet[OF assms(1)] .
  have s2: "?s2 = ?s1\<lparr>nodes := applyNodeChanges (snd ev) (nodes ?s1),
             positionUpdateTimeoutRef :=
               Some (now ?s1 + 500, applyNodeChanges (snd ev) (nodes ?s1), edges ?s1)\<rparr>"
    using onNodesChangeCallback_position[OF pe] .
  have ref: "positionUpdateTimeoutRef ?s2 = Some (now ?s2 + 500, nodes ?s2, edges ?s1)"
    by (subst (1 2 3) s2) simp
  have b: "batches ?s2 = batches st" by (subst s2, subst s1) simp
  have d: "db_nodes ?s2 = db_nodes st" by (subst s2, subst s1) simp
  have r: "responses ?s2 = responses st" by (subst s2, subst s1) simp
  have n: "nodes ?s2 = applyNodeChanges (snd ev) (nodes st)" by (subst s2, subst (1 2) s1) simp
  have ids: "map node_id (nodes ?s2) = map node_id (nodes st)"
    using pe by (simp only: n) (simp add: applyNodeChanges_ids position_event_def)
  from assms(3,4) evs have rest: "\<forall>ev\<in>set rest. position_event (snd ev) \<and> fst ev < 500"
    by simp
  from burst[OF rest ref] obtain es where
    i1: "batches ?s' = batches ?s2"
    and i2: "positionUpdateTimeoutRef ?s' = Some (now ?s' + 500, nodes ?s', es)"
    and i3: "nodes ?s' = fold (\<lambda>ev ns. applyNodeChanges (snd ev) ns) rest (nodes ?s2)"
    by blast
  from burst_store[OF rest ref] have
    j1: "db_nodes ?s' = db_nodes ?s2"
    and j2: "responses ?s' = responses ?s2"
    and j3: "map node_id (nodes ?s') = map node_id (nodes ?s2)"
    by blast+
  have db: "db_nodes ?s' = db_nodes st" by (simp only: j1 d)
  have rs: "responses ?s' = responses st" by (simp only: j2 r)
  have idl: "map node_id (nodes ?s') = map node_id (nodes st)" by (simp only: j3 ids)
  have unf: "node_events evs st = ?s'"
    by (simp only: evs node_events_Cons)
  show ?thesis
    unfolding unf
  proof (intro conjI allI impI)
    show "batches ?s' = batches st" by (simp only: i1 b)
    show "batches (elapse quiet ?s') = batches st @ [nodes ?s']"
      using elapse_fires(1)[OF i2 assms(5)] by (simp only: i1 b)
    show "positionUpdateTimeoutRef (elapse quiet ?s') = None"
      using elapse_fires(2)[OF i2 assms(5)] .
    show "nodes ?s' = fold (\<lambda>ev ns. applyNodeChanges (snd ev) ns) evs (nodes st)"
      by (simp only: i3 n evs fold_simps o_apply)
    show "db_nodes ?s' = db_nodes st" by (rule db)
    show "responses ?s' = responses st" by (rule rs)
    show "responses (elapse quiet ?s') = drop (length (nodes ?s')) (responses st)"
      using elapse_fires_store(1)[OF i2 assms(5)] by (simp only: rs)
    show "db_nodes (elapse quiet ?s') j = db_nodes st j" if "j \<notin> node_id ` set (nodes ?s')" for j
      using elapse_fires_store(2)[OF i2 assms(5) that] by (simp only: db)
    show "db_nodes (elapse quiet ?s') (node_id (nodes ?s' ! i))
                = Some (row\<lparr>position_x := fst (position (nodes ?s' ! i)),
                            position_y := snd (position (nodes ?s' ! i))\<rparr>)"
      if dist: "distinct (map node_id (nodes st))"
        and h: "i < length (nodes ?s') \<and> i < length (responses st)
                    \<and> responses st ! i \<noteq> None
                    \<and> db_nodes st (node_id (nodes ?s' ! i)) = Some row" for i row
    proof -
      have d': "distinct (map node_id (nodes ?s'))" using dist by (simp only: idl)
      from h have h1: "i < length (nodes ?s')" and h2: "i < length (responses ?s')"
        and h3: "responses ?s' ! i \<noteq> None"
        and h4: "db_nodes ?s' (node_id (nodes ?s' ! i)) = Some row"
        by (simp_all add: rs db)
      from elapse_fires_store(3)[OF i2 assms(5) d' h1 h2 h3 h4] show ?thesis .
    qed
  qed
qed

text \<open>
  Two drags of A, 100 ms apart, then 500 ms of quiet: nothing is written while the drags
  arrive, then one batch of three requests, after which the store holds the last position
  of A.
\<close>

theorem debounced_single_batch_witness:
  "batches (node_events drag_A graph_ABC) = []
   \<and> batches (elapse 500 (node_events drag_A graph_ABC)) = [nodes (node_events drag_A graph_ABC)]
   \<and> positionUpdateTimeoutRef (elapse 500 (node_events drag_A graph_ABC)) = None
   \<and> map (\<lambda>n. (node_id n, position n)) (nodes (node_events drag_A graph_ABC))
       = [(''A'', (20, 20)), (''B'', (0, 0)), (''C'', (0, 0))]
   \<and> responses (node_events drag_A graph_ABC) = responses graph_ABC
   \<and> responses (elapse 500 (node_events drag_A graph_ABC)) = drop 3 (responses graph_ABC)
   \<and> map_option (\<lambda>row. (position_x row, position_y row))
       (db_nodes (node_events drag_A graph_ABC) ''A'') = Some (0, 0)
   \<and> map_option (\<lambda>row. (position_x row, position_y row))
       (db_nodes (elapse 500 (node_events drag_A graph_ABC)) ''A'') = Some (20, 20)"
proof -
  let ?s' = "node_events drag_A graph_ABC"
  let ?row = "\<lparr>graph_id = ''g'', label = ''A'', position_x = 0, position_y = 0,
               data = Some (node_data (mk_node ''A'' ''analysis'' Map.empty))\<rparr>"
  have h1: "positionUpdateTimeoutRef graph_ABC = None"
    by (simp add: example_defs)
  have h2: "drag_A \<noteq> []"
    by (simp add: drag_A_def)
  have h3: "\<forall>ev\<in>set drag_A. position_event (snd ev)"
    by (simp add: drag_A_def position_event_def)
  have h4: "\<forall>ev\<in>set (tl drag_A). fst ev < 500"
    by (simp add: drag_A_def)
  have h5: "(500::nat) \<le> 500" by simp
  note t = debounced_single_batch[OF h1 h2 h3 h4 h5]
  have b: "batches graph_ABC = []"
    by (simp add: example_defs)
  have run: "fold (\<lambda>ev ns. applyNodeChanges (snd ev) ns) drag_A (nodes graph_ABC)
       = [(mk_node ''A'' ''analysis'' Map.empty)\<lparr>position := (20, 20)\<rparr>,
          mk_node ''B'' ''prompt'' Map.empty, mk_node ''C'' ''prompt'' Map.empty]"
    by (simp add: example_defs applyNodeChanges_def)
  from t have ns: "nodes ?s' = fold (\<lambda>ev ns. applyNodeChanges (snd ev) ns) drag_A (nodes graph_ABC)"
    by blast
  have ns': "nodes ?s' = [(mk_node ''A'' ''analysis'' Map.empty)\<lparr>position := (20, 20)\<rparr>,
          mk_node ''B'' ''prompt'' Map.empty, mk_node ''C'' ''prompt'' Map.empty]"
    by (simp only: ns run)
  from t have "batches ?s' = batches graph_ABC" by blast
  then have c1: "batches ?s' = []" by (simp only: b)
  from t have "batches (elapse 500 ?s') = batches graph_ABC @ [nodes ?s']" by blast
  then have c2: "batches (elapse 500 ?s') = [nodes ?s']" by (simp only: b append_Nil)
  from t have c3: "positionUpdateTimeoutRef (elapse 500 ?s') = None" by blast
  have c4: "map (\<lambda>n. (node_id n, position n)) (nodes ?s')
       = [(''A'', (20, 20)), (''B'', (0, 0)), (''C'', (0, 0))]"
    by (simp add: ns' mk_node_def)
  from t have c5: "responses ?s' = responses graph_ABC" by blast
  from t have "responses (elapse 500 ?s') = drop (length (nodes ?s')) (responses graph_ABC)"
    by blast
  then have c6: "responses (elapse 500 ?s') = drop 3 (responses graph_ABC)"
    by (simp add: ns' numeral_3_eq_3)
  from t have "db_nodes ?s' = db_nodes graph_ABC" by blast
  then have c7: "map_option (\<lambda>row. (position_x row, position_y row)) (db_nodes ?s' ''A'')
                   = Some (0, 0)"
    by (simp add: example_defs)
  have dist: "distinct (map node_id (nodes graph_ABC))"
    by (simp add: example_defs)
  have pre: "0 < length (nodes ?s') \<and> 0 < length (responses graph_ABC)
             \<and> responses graph_ABC ! 0 \<noteq> None
             \<and> db_nodes graph_ABC (node_id (nodes ?s' ! 0)) = Some ?row"
    by (simp only: ns') (simp add: example_defs)
  from t dist have "\<forall>i row. i < length (nodes ?s') \<and> i < length (responses graph_ABC)
                    \<and> responses graph_ABC ! i \<noteq> None
                    \<and> db_nodes graph_ABC (node_id (nodes ?s' ! i)) = Some row \<longrightarrow>
              db_nodes (elapse 500 ?s') (node_id (nodes ?s' ! i))
                = Some (row\<lparr>position_x := fst (position (nodes ?s' ! i)),
                            position_y := snd (position (nodes ?s' ! i))\<rparr>)"
    by blast
  with pre have "db_nodes (elapse 500 ?s') (node_id (nodes ?s' ! 0))
                = Some (?row\<lparr>position_x := fst (position (nodes ?s' ! 0)),
                            position_y := snd (position (nodes ?s' ! 0))\<rparr>)"
    by blast
  then have c8: "map_option (\<lambda>row. (position_x row, position_y row))
       (db_nodes (elapse 500 ?s') ''A'') = Some (20, 20)"
    by (simp add: ns' mk_node_def)
  from c1 c2 c3 c4 c5 c6 c7 c8 show ?thesis by blast
qed

subsection \<open>C8: adding a node below a selected conditional node\<close>

text \<open>
  Claim C8. Let a \<^verbatim>\<open>conditional\<close> node be selected when \<^verbatim>\<open>handleAddNode\<close> runs with a
  type and a label, and let the node insert and the edge insert succeed. When the selected
  node has no outgoing edge on handle \<^verbatim>\<open>true\<close>, the new edge to the new node is appended
  with handle \<^verbatim>\<open>true\<close>; when it has one on \<^verbatim>\<open>true\<close> and none on \<^verbatim>\<open>false\<close>, the new
  edge is appended with handle \<^verbatim>\<open>false\<close>.
\<close>

theorem handleAddNode_conditional_handle:
  assumes "selectedNode st = Some sel"
    and "node_type sel = JStr ''conditional''"
    and "graphId st \<noteq> []" and "label_text \<noteq> []" and "type_name \<noteq> []"
    and "responses st = Some newNodeId # Some newEdgeId # rest"
  shows "(outgoing_on (node_id sel) ''true'' st = [] \<longrightarrow>
            edges (handleAddNode st type_name label_text st) =
              edges st @ [\<lparr>edge_id = newEdgeId, source = node_id sel, target = newNodeId,
                           sourceHandle = Some ''true''\<rparr>])
       \<and> (outgoing_on (node_id sel) ''true'' st \<noteq> [] \<and> outgoing_on (node_id sel) ''false'' st = [] \<longrightarrow>
            edges (handleAddNode st type_name label_text st) =
              edges st @ [\<lparr>edge_id = newEdgeId, source = node_id sel, target = newNodeId,
                           sourceHandle = Some ''false''\<rparr>])"
proof -
  have ex: "list_ex P xs = (filter P xs \<noteq> [])" for P :: "edge \<Rightarrow> bool" and xs
    by (induction xs) auto
  show ?thesis
    using assms
    by (auto simp: handleAddNode_def outgoing_on_def ex insert_node_def createEdge_def
        insert_edge_def respond_def truthy_handle_def Let_def
        split: prod.splits option.splits)
qed

text \<open>
  The scenario of the specification: D is selected and has a \<^verbatim>\<open>true\<close> edge to E; the edge
  to the new node G is created on \<^verbatim>\<open>false\<close>.
\<close>

theorem handleAddNode_conditional_handle_witness:
  "edges (handleAddNode graph_DE_add ''prompt'' ''G'' graph_DE_add) =
     edges graph_DE_add @ [\<lparr>edge_id = ''e2'', source = ''D'', target = ''G'',
                            sourceHandle = Some ''false''\<rparr>]"
proof -
  let ?sel = "mk_node ''D'' ''conditional'' [''trueChildId'' \<mapsto> JStr ''E'']"
  have h1: "selectedNode graph_DE_add = Some ?sel"
    by (simp add: example_defs)
  have h2: "node_type ?sel = JStr ''conditional''"
    by (simp add: mk_node_def)
  have h3: "graphId graph_DE_add \<noteq> []" "''G'' \<noteq> []" "''prompt'' \<noteq> []"
    by (simp_all add: example_defs)
  have h4: "responses graph_DE_add = Some ''G'' # Some ''e2'' # [Some ''ok'', Some ''ok'']"
    by (simp add: example_defs)
  have h5: "outgoing_on (node_id ?sel) ''true'' graph_DE_add \<noteq> []
            \<and> outgoing_on (node_id ?sel) ''false'' graph_DE_add = []"
    by (simp add: outgoing_on_def example_defs)
  have id: "node_id ?sel = ''D''"
    by (simp add: mk_node_def)
  from handleAddNode_conditional_handle[OF h1 h2 h3 h4] h5
  have "edges (handleAddNode graph_DE_add ''prompt'' ''G'' graph_DE_add) =
     edges graph_DE_add @ [\<lparr>edge_id = ''e2'', source = node_id ?sel, target = ''G'',
                            sourceHandle = Some ''false''\<rparr>]"
    by blast
  then show ?thesis unfolding id .
qed

subsection \<open>C9: the type of a loaded node\<close>

text \<open>
  Claim C9 says that a fetched node whose stored type is absent or is none of
  \<^verbatim>\<open>prompt\<close>, \<^verbatim>\<open>analysis\<close>, \<^verbatim>\<open>conditional\<close> is given type \<^verbatim>\<open>prompt\<close>. The source
  defaults only a falsy stored type (\<^verbatim>\<open>nodeData.type || "prompt"\<close>): the stored type
  \<^verbatim>\<open>foo\<close> is none of the three and stays the type of the node.
\<close>

theorem flowNode_unrecognized_counterexample:
  "js_get (stored_payload row_foo) ''type'' \<noteq> JStr ''prompt''
   \<and> js_get (stored_payload row_foo) ''type'' \<noteq> JStr ''analysis''
   \<and> js_get (stored_payload row_foo) ''type'' \<noteq> JStr ''conditional''
   \<and> node_type (flowNode ''n1'' row_foo) \<noteq> JStr ''prompt''"
  by (simp add: flowNode_def row_foo_def stored_payload_def js_get_def Let_def)

text \<open>
  Claim C9, amended. A fetched node whose stored payload type is absent, or is otherwise
  falsy, is given type \<^verbatim>\<open>prompt\<close>; every other stored type is kept as the type of the
  node, whether it is one of the three node types or not.
\<close>

theorem flowNode_type:
  "node_type (flowNode i row) =
     (if truthy (js_get (stored_payload row) ''type'') then js_get (stored_payload row) ''type''
      else JStr ''prompt'')"
  by (simp add: flowNode_def stored_payload_def Let_def)

theorem flowNode_type_witness:
  "node_type (flowNode ''n2'' row_untyped) = JStr ''prompt''
   \<and> node_type (flowNode ''n1'' row_foo) = JStr ''foo''"
  using flowNode_type[of "''n2''" row_untyped] flowNode_type[of "''n1''" row_foo]
  by (simp add: row_untyped_def row_foo_def stored_payload_def js_get_def)

subsection \<open>C10: a payload update merges into the stored payload\<close>

text \<open>
  Claim C10. When the fetch and the update of \<^verbatim>\<open>updateNodeData\<close> both succeed and the
  node has a row in the store, the call returns \<^verbatim>\<open>true\<close> and the payload stored
  afterwards is the payload stored before overridden by \<open>newData\<close>: every key that
  \<open>newData\<close> does not mention keeps its stored value, and every key it mentions takes the
  value \<open>newData\<close> gives it.
\<close>

theorem updateNodeData_merges:
  assumes "responses st = Some a # Some b # rest"
    and "db_nodes st nodeId = Some row"
  shows "fst (updateNodeData nodeId newData st)
       \<and> db_nodes (snd (updateNodeData nodeId newData st)) nodeId
           = Some (row\<lparr>data := Some (stored_payload row ++ newData)\<rparr>)
       \<and> (\<forall>k. k \<notin> dom newData \<longrightarrow> (stored_payload row ++ newData) k = stored_payload row k)
       \<and> (\<forall>k. k \<in> dom newData \<longrightarrow> (stored_payload row ++ newData) k = newData k)"
  using assms
  by (auto simp: updateNodeData_def select_node_def update_node_data_def respond_def
        stored_payload_def Let_def map_add_def split: option.splits)

text \<open>Setting the prompt of A leaves its stored \<^verbatim>\<open>childId\<close> in place.\<close>

theorem updateNodeData_merges_witness:
  "fst (updateNodeData ''A'' [''prompt'' \<mapsto> JStr ''hi''] graph_AB_online)
   \<and> map_option (\<lambda>row. (js_get (stored_payload row) ''childId'',
                         js_get (stored_payload row) ''prompt''))
       (db_nodes (snd (updateNodeData ''A'' [''prompt'' \<mapsto> JStr ''hi''] graph_AB_online)) ''A'')
     = Some (JStr ''B'', JStr ''hi'')"
proof -
  let ?row = "\<lparr>graph_id = ''g'', label = ''A'', position_x = 0, position_y = 0,
               data = Some (node_data (mk_node ''A'' ''analysis'' [''childId'' \<mapsto> JStr ''B'']))\<rparr>"
  have h1: "responses graph_AB_online = Some ''ok'' # Some ''ok'' # [Some ''ok'', Some ''ok'']"
    by (simp add: example_defs)
  have h2: "db_nodes graph_AB_online ''A'' = Some ?row"
    by (simp add: example_defs)
  from updateNodeData_merges[OF h1 h2, of "[''prompt'' \<mapsto> JStr ''hi'']"]
  have r: "fst (updateNodeData ''A'' [''prompt'' \<mapsto> JStr ''hi''] graph_AB_online)"
    and d: "db_nodes (snd (updateNodeData ''A'' [''prompt'' \<mapsto> JStr ''hi''] graph_AB_online)) ''A''
           = Some (?row\<lparr>data := Some (stored_payload ?row ++ [''prompt'' \<mapsto> JStr ''hi''])\<rparr>)"
    by blast+
  show ?thesis
    by (simp only: r d) (simp add: stored_payload_def js_get_def mk_node_def)
qed

end
